theory Spec2Isabelle
  imports Main "HOL-Library.Char_ord" "HOL-Library.List_Lexorder"
begin

section \<open>JavaScript values\<close>

text \<open>
  The schemas of \<^verbatim>\<open>packages/internal/src/schemas/api.ts\<close> are zod schemas: each one is a
  parser from an untyped JavaScript value to a validated (and possibly transformed) value.
  The values are the JSON trees together with \<^verbatim>\<open>undefined\<close> (an absent property reads as
  \<^verbatim>\<open>undefined\<close>) and \<^verbatim>\<open>Date\<close> objects (what \<^verbatim>\<open>z.coerce.date()\<close> returns), a date being
  its number of milliseconds since the epoch. Numbers are the integer-valued ones; an
  object is the list of its own properties in insertion order.
\<close>

datatype jsval =
    JUndefined
  | JNull
  | JBool bool
  | JNum int
  | JStr string
  | JDate int
  | JArr "jsval list"
  | JObj "(string \<times> jsval) list"

text \<open>Property read \<^verbatim>\<open>data[key]\<close> and the test \<^verbatim>\<open>key in data\<close>.\<close>

fun get :: "jsval \<Rightarrow> string \<Rightarrow> jsval" where
  "get (JObj kvs) k = (case map_of kvs k of Some v \<Rightarrow> v | None \<Rightarrow> JUndefined)"
| "get _ k = JUndefined"

fun has_key :: "jsval \<Rightarrow> string \<Rightarrow> bool" where
  "has_key (JObj kvs) k = (k \<in> fst ` set kvs)"
| "has_key _ k = False"

text \<open>JavaScript truthiness, as the conditional \<^verbatim>\<open>s ? a : b\<close> reads its condition.\<close>

fun truthy :: "jsval \<Rightarrow> bool" where
  "truthy JUndefined = False"
| "truthy JNull = False"
| "truthy (JBool b) = b"
| "truthy (JNum n) = (n \<noteq> 0)"
| "truthy (JStr s) = (s \<noteq> [])"
| "truthy _ = True"

section \<open>The zod combinators the schemas are built from\<close>

text \<open>
  The schemas are values of the library zod (version 3), a dependency of the package:
  its combinators are modelled as far as \<^verbatim>\<open>api.ts\<close> uses them, a schema being the
  description that the library interprets when it parses.
  A parse either yields a value, or reports validation issues (\<open>INVALID\<close>: the method
  \<^verbatim>\<open>parse\<close> then throws a \<^verbatim>\<open>ZodError\<close>), or is cut short by an exception thrown inside a
  transform, which zod does not catch.
\<close>

datatype exn = ZodError | SyntaxError

datatype error = INVALID | Throw exn

datatype zod =
    ZString
  | ZStringCheck "string \<Rightarrow> bool"
  | ZBoolean
  | ZLiteral jsval
  | ZCoerceDate "jsval \<Rightarrow> int option"
  | ZArray zod
  | ZRecord zod
  | ZObject "(string \<times> zod) list"
  | ZOptional zod
  | ZNullable zod
  | ZDefault zod jsval
  | ZTransform zod "jsval \<Rightarrow> exn + jsval"
  | ZDiscriminatedUnion string "zod list"
  | ZodType "jsval \<Rightarrow> error + jsval"

text \<open>
  \<open>ZStringCheck ok\<close> is \<^verbatim>\<open>z.string()\<close> with one check (\<^verbatim>\<open>.url()\<close>, \<^verbatim>\<open>.datetime()\<close>);
  \<open>ZCoerceDate newDate\<close> is \<^verbatim>\<open>z.coerce.date()\<close>, where \<open>newDate v\<close> is the time value of
  \<^verbatim>\<open>new Date(v)\<close>, \<open>None\<close> for an invalid date; \<open>ZDefault t d\<close> holds the value \<open>d\<close> its
  default thunk returns; \<open>ZodType p\<close> is a schema given by its parse function.

  \<open>mergeArray\<close> and \<open>mergeObject\<close> combine the results of the elements, taken in order: an
  exception leaves at once, issues let the remaining elements be parsed (and their
  transforms run) before the whole is reported invalid. An object keeps a property when
  its value is defined or the key was present in the input (zod's \<^verbatim>\<open>alwaysSet\<close>).
\<close>

fun mergeArray :: "(error + jsval) list \<Rightarrow> error + jsval list" where
  "mergeArray [] = Inr []"
| "mergeArray (Inl (Throw e) # rs) = Inl (Throw e)"
| "mergeArray (Inl INVALID # rs) =
     (case mergeArray rs of Inl (Throw e) \<Rightarrow> Inl (Throw e) | _ \<Rightarrow> Inl INVALID)"
| "mergeArray (Inr v # rs) =
     (case mergeArray rs of Inl e \<Rightarrow> Inl e | Inr vs \<Rightarrow> Inr (v # vs))"

fun mergeObject ::
  "jsval \<Rightarrow> (string \<times> (error + jsval)) list \<Rightarrow> error + (string \<times> jsval) list" where
  "mergeObject d [] = Inr []"
| "mergeObject d ((k, Inl (Throw e)) # ps) = Inl (Throw e)"
| "mergeObject d ((k, Inl INVALID) # ps) =
     (case mergeObject d ps of Inl (Throw e) \<Rightarrow> Inl (Throw e) | _ \<Rightarrow> Inl INVALID)"
| "mergeObject d ((k, Inr v) # ps) =
     (case mergeObject d ps of
        Inl e \<Rightarrow> Inl e
      | Inr out \<Rightarrow> Inr (if v \<noteq> JUndefined \<or> has_key d k then (k, v) # out else out))"

text \<open>The literal an option of a discriminated union declares for the discriminator key.\<close>

fun discriminatorOf :: "string \<Rightarrow> zod \<Rightarrow> jsval option" where
  "discriminatorOf disc (ZObject shape) =
     (case map_of shape disc of Some (ZLiteral l) \<Rightarrow> Some l | _ \<Rightarrow> None)"
| "discriminatorOf disc _ = None"

function (sequential) zparse :: "zod \<Rightarrow> jsval \<Rightarrow> error + jsval" where
  "zparse ZString v = (case v of JStr s \<Rightarrow> Inr v | _ \<Rightarrow> Inl INVALID)"
| "zparse (ZStringCheck ok) v =
     (case v of JStr s \<Rightarrow> if ok s then Inr v else Inl INVALID | _ \<Rightarrow> Inl INVALID)"
| "zparse ZBoolean v = (case v of JBool b \<Rightarrow> Inr v | _ \<Rightarrow> Inl INVALID)"
| "zparse (ZLiteral l) v = (if v = l then Inr v else Inl INVALID)"
| "zparse (ZCoerceDate newDate) v =
     (case newDate v of Some t \<Rightarrow> Inr (JDate t) | None \<Rightarrow> Inl INVALID)"
| "zparse (ZArray t) v =
     (case v of
        JArr xs \<Rightarrow>
          (case mergeArray (map (zparse t) xs) of Inl e \<Rightarrow> Inl e | Inr ys \<Rightarrow> Inr (JArr ys))
      | _ \<Rightarrow> Inl INVALID)"
| "zparse (ZRecord t) v =
     (case v of
        JObj kvs \<Rightarrow>
          (case mergeObject v (map (\<lambda>kv. (fst kv, zparse t (snd kv))) kvs) of
             Inl e \<Rightarrow> Inl e
           | Inr out \<Rightarrow> Inr (JObj out))
      | _ \<Rightarrow> Inl INVALID)"
| "zparse (ZObject shape) v =
     (case v of
        JObj kvs \<Rightarrow>
          (case mergeObject v (map (\<lambda>ks. (fst ks, zparse (snd ks) (get v (fst ks)))) shape) of
             Inl e \<Rightarrow> Inl e
           | Inr out \<Rightarrow> Inr (JObj out))
      | _ \<Rightarrow> Inl INVALID)"
| "zparse (ZOptional t) v = (if v = JUndefined then Inr JUndefined else zparse t v)"
| "zparse (ZNullable t) v = (if v = JNull then Inr JNull else zparse t v)"
| "zparse (ZDefault t d) v = zparse t (if v = JUndefined then d else v)"
| "zparse (ZTransform t f) v =
     (case zparse t v of
        Inl e \<Rightarrow> Inl e
      | Inr r \<Rightarrow> (case f r of Inl x \<Rightarrow> Inl (Throw x) | Inr r' \<Rightarrow> Inr r'))"
| "zparse (ZDiscriminatedUnion disc options) v =
     (case v of
        JObj kvs \<Rightarrow>
          (case find (\<lambda>opt. discriminatorOf disc opt = Some (get v disc)) options of
             None \<Rightarrow> Inl INVALID
           | Some opt \<Rightarrow> zparse opt v)
      | _ \<Rightarrow> Inl INVALID)"
| "zparse (ZodType p) v = p v"
  by pat_completeness auto

lemma size_find_less: "find P xs = Some x \<Longrightarrow> size x < Suc (size_list size xs)"
  by (induction xs) (auto split: if_splits)

lemma size_shape_less:
  "(a, b) \<in> set shape \<Longrightarrow> size b < Suc (size_list (size_prod (\<lambda>x. 0) size) shape)"
  by (induction shape) auto

termination zparse
  apply (relation "measure (\<lambda>(t, v). size t)")
  apply (auto dest: size_find_less size_shape_less)
  done

text \<open>The method \<^verbatim>\<open>schema.parse(v)\<close>: the value, or the exception it throws.\<close>

definition parse :: "zod \<Rightarrow> jsval \<Rightarrow> exn + jsval" where
  "parse t v =
     (case zparse t v of
        Inr r \<Rightarrow> Inr r
      | Inl INVALID \<Rightarrow> Inl ZodError
      | Inl (Throw e) \<Rightarrow> Inl e)"

section \<open>What the schemas import\<close>

text \<open>
  \<^verbatim>\<open>api.ts\<close> imports schemas from \<^verbatim>\<open>./json\<close>, \<^verbatim>\<open>./tasks\<close>, \<^verbatim>\<open>./elements\<close> and
  \<^verbatim>\<open>./connections\<close>, which are not among the sources, and calls into the JavaScript
  runtime and the \<^verbatim>\<open>ulid\<close> package. They are the parameters of the model:
  \<^item> the imported schemas, each any zod schema;
  \<^item> \<open>isURL s\<close>: \<^verbatim>\<open>new URL(s)\<close> does not throw (the check of \<^verbatim>\<open>.url()\<close>);
  \<^item> \<open>isDatetime s\<close>: \<open>s\<close> matches the pattern of \<^verbatim>\<open>.datetime()\<close>;
  \<^item> \<open>Date_parse v\<close>: the time value of \<^verbatim>\<open>new Date(v)\<close> for a string, an array or an
    object \<open>v\<close> (conversion to a primitive, then \<^verbatim>\<open>Date.parse\<close>), \<open>None\<close> when invalid;
  \<^item> \<open>toISOString t\<close>: \<^verbatim>\<open>Date.prototype.toISOString\<close>, which \<^verbatim>\<open>JSON.stringify\<close> writes
    for a date;
  \<^item> \<open>JSON_parse s\<close>: \<^verbatim>\<open>JSON.parse(s)\<close>, \<open>None\<close> when it throws a \<^verbatim>\<open>SyntaxError\<close>;
  \<^item> \<open>clock\<close>: \<^verbatim>\<open>Date.now()\<close> at the time of the parse, and \<open>prng i\<close>: the \<open>i\<close>-th random
    digit \<^verbatim>\<open>Math.floor(prng() * 32)\<close> drawn by \<^verbatim>\<open>ulid()\<close>.
\<close>

record env =
  DeserializedJsonSchema :: zod
  SerializableJsonSchema :: zod
  TaskSchema :: zod
  DisplayElementSchema :: zod
  ConnectionAuthSchema :: zod
  isURL :: "string \<Rightarrow> bool"
  isDatetime :: "string \<Rightarrow> bool"
  Date_parse :: "jsval \<Rightarrow> int option"
  toISOString :: "int \<Rightarrow> string"
  JSON_parse :: "string \<Rightarrow> jsval option"
  clock :: nat
  prng :: "nat \<Rightarrow> nat"

text \<open>
  \<^verbatim>\<open>.extend\<close>, \<^verbatim>\<open>.omit\<close> and \<^verbatim>\<open>.pick\<close> of an object schema. \<^verbatim>\<open>extend\<close> spreads the new
  shape over the old one: a key already there keeps its place and takes the new schema.
  \<^verbatim>\<open>pick\<close> walks the keys of its mask. The methods exist on object schemas only.
\<close>

fun extend :: "zod \<Rightarrow> (string \<times> zod) list \<Rightarrow> zod" where
  "extend (ZObject shape) aug =
     ZObject (map (\<lambda>ks. (fst ks, case map_of aug (fst ks) of Some s \<Rightarrow> s | None \<Rightarrow> snd ks)) shape
              @ filter (\<lambda>ks. fst ks \<notin> fst ` set shape) aug)"
| "extend t aug = t"

fun omit :: "zod \<Rightarrow> string list \<Rightarrow> zod" where
  "omit (ZObject shape) ks = ZObject (filter (\<lambda>p. fst p \<notin> set ks) shape)"
| "omit t ks = t"


text \<open>
  \<^verbatim>\<open>new Date(v)\<close>: \<^verbatim>\<open>undefined\<close> gives an invalid date, \<^verbatim>\<open>null\<close> and the booleans
  convert to the numbers 0 and 1, a number is a time value when it is within
  8.64e15 ms of the epoch, a date is copied.
\<close>

fun new_Date :: "env \<Rightarrow> jsval \<Rightarrow> int option" where
  "new_Date E JUndefined = None"
| "new_Date E JNull = Some 0"
| "new_Date E (JBool b) = Some (if b then 1 else 0)"
| "new_Date E (JNum n) = (if \<bar>n\<bar> \<le> 8640000000000000 then Some n else None)"
| "new_Date E (JDate t) = Some t"
| "new_Date E v = Date_parse E v"


lemma size_property_less:
  "(a, b) \<in> set kvs \<Longrightarrow> size b < Suc (size_list (size_prod (\<lambda>x. 0) size) kvs)"
  by (induction kvs) auto



subsection \<open>The default identifier\<close>

text \<open>
  Modelled from the spec: the function \<^verbatim>\<open>ulid\<close> of the package \<^verbatim>\<open>ulid\<close> (imported at line 5
  of \<^verbatim>\<open>api.ts\<close>) is missing from the sources. The spec (section 3) asks for an identifier
  that is globally unique and time-sortable; the model is the ULID layout: the
  millisecond clock written as 10 digits in Crockford's base 32, most significant
  digit first, followed by 16 random digits of the same alphabet. The clock and the
  random digits are inputs.
\<close>

definition ENCODING :: string where
  "ENCODING = ''0123456789ABCDEFGHJKMNPQRSTVWXYZ''"

text \<open>
  Modelled from the spec: the time component of the missing \<^verbatim>\<open>ulid\<close>, the clock in base
  32 on \<open>len\<close> digits, the least significant digit written last.
\<close>

fun encodeTime :: "nat \<Rightarrow> nat \<Rightarrow> string" where
  "encodeTime now 0 = []"
| "encodeTime now (Suc len) = encodeTime (now div 32) len @ [ENCODING ! (now mod 32)]"

text \<open>
  Modelled from the spec: the random component of the missing \<^verbatim>\<open>ulid\<close>, one digit of the
  alphabet per draw (a draw lies between 0 and 31).
\<close>

fun encodeRandom :: "nat \<Rightarrow> (nat \<Rightarrow> nat) \<Rightarrow> string" where
  "encodeRandom 0 draw = []"
| "encodeRandom (Suc len) draw =
     encodeRandom len (\<lambda>i. draw (Suc i)) @ [ENCODING ! (min (draw 0) 31)]"

text \<open>
  Modelled from the spec: the missing \<^verbatim>\<open>ulid()\<close>, the time component on 10 digits followed
  by 16 random digits.
\<close>

definition ulid :: "nat \<Rightarrow> (nat \<Rightarrow> nat) \<Rightarrow> string" where
  "ulid now draw = encodeTime now 10 @ encodeRandom 16 draw"

section \<open>The schemas of api.ts\<close>

definition RegisterHttpEventSourceBodySchema :: zod where
  "RegisterHttpEventSourceBodySchema =
     ZObject [(''key'', ZString), (''connectionId'', ZOptional ZString)]"

definition UpdateHttpEventSourceBodySchema :: "env \<Rightarrow> zod" where
  "UpdateHttpEventSourceBodySchema E =
     extend (omit RegisterHttpEventSourceBodySchema [''key''])
       [(''secret'', ZOptional ZString),
        (''data'', ZOptional (SerializableJsonSchema E)),
        (''active'', ZOptional ZBoolean)]"

definition HttpEventSourceSchema :: "env \<Rightarrow> zod" where
  "HttpEventSourceSchema E =
     extend (UpdateHttpEventSourceBodySchema E)
       [(''id'', ZString), (''active'', ZBoolean), (''url'', ZStringCheck (isURL E))]"

text \<open>
  The transform of \<^verbatim>\<open>x-trigger-auth\<close> hands the header string itself to
  \<^verbatim>\<open>ConnectionAuthSchema.parse\<close>; the transform of \<^verbatim>\<open>x-trigger-headers\<close> hands over
  \<^verbatim>\<open>JSON.parse(s)\<close>. Both run on the string that \<^verbatim>\<open>z.string()\<close> accepted.
\<close>

definition auth_transform :: "env \<Rightarrow> jsval \<Rightarrow> exn + jsval" where
  "auth_transform E s = (if truthy s then parse (ConnectionAuthSchema E) s else Inr JUndefined)"

definition headers_transform :: "env \<Rightarrow> jsval \<Rightarrow> exn + jsval" where
  "headers_transform E s =
     (case s of
        JStr str \<Rightarrow>
          (case JSON_parse E str of
             None \<Rightarrow> Inl SyntaxError
           | Some j \<Rightarrow> parse (ZRecord ZString) j)
      | _ \<Rightarrow> Inl SyntaxError)"

definition HttpSourceRequestHeadersSchema :: "env \<Rightarrow> zod" where
  "HttpSourceRequestHeadersSchema E =
     ZObject
       [(''x-trigger-key'', ZString),
        (''x-trigger-auth'', ZTransform (ZOptional ZString) (auth_transform E)),
        (''x-trigger-url'', ZString),
        (''x-trigger-method'', ZString),
        (''x-trigger-headers'', ZTransform ZString (headers_transform E)),
        (''x-trigger-secret'', ZOptional ZString)]"

definition RawEventSchema :: "env \<Rightarrow> zod" where
  "RawEventSchema E =
     ZObject
       [(''id'', ZDefault ZString (JStr (ulid (clock E) (prng E)))),
        (''name'', ZString),
        (''source'', ZDefault ZString (JStr ''trigger.dev'')),
        (''payload'', DeserializedJsonSchema E),
        (''context'', ZOptional (DeserializedJsonSchema E)),
        (''timestamp'', ZOptional (ZStringCheck (isDatetime E)))]"

definition ApiEventLogSchema :: "env \<Rightarrow> zod" where
  "ApiEventLogSchema E =
     ZObject
       [(''id'', ZString),
        (''name'', ZString),
        (''payload'', DeserializedJsonSchema E),
        (''context'', ZNullable (ZOptional (DeserializedJsonSchema E))),
        (''timestamp'', ZCoerceDate (new_Date E)),
        (''deliverAt'', ZNullable (ZOptional (ZCoerceDate (new_Date E)))),
        (''deliveredAt'', ZNullable (ZOptional (ZCoerceDate (new_Date E))))]"

definition ExecuteJobResponseSchema :: "env \<Rightarrow> zod" where
  "ExecuteJobResponseSchema E =
     ZObject
       [(''executionId'', ZString),
        (''completed'', ZBoolean),
        (''output'', ZOptional (DeserializedJsonSchema E)),
        (''task'', ZOptional (TaskSchema E))]"

definition CreateExecutionResponseOkSchema :: zod where
  "CreateExecutionResponseOkSchema =
     ZObject [(''ok'', ZLiteral (JBool True)), (''data'', ZObject [(''id'', ZString)])]"

definition CreateExecutionResponseErrorSchema :: zod where
  "CreateExecutionResponseErrorSchema =
     ZObject [(''ok'', ZLiteral (JBool False)), (''error'', ZString)]"

definition CreateExecutionResponseBodySchema :: zod where
  "CreateExecutionResponseBodySchema =
     ZDiscriminatedUnion ''ok''
       [CreateExecutionResponseOkSchema, CreateExecutionResponseErrorSchema]"

definition SecureStringSchema :: zod where
  "SecureStringSchema =
     ZObject
       [(''__secureString'', ZLiteral (JBool True)),
        (''strings'', ZArray ZString),
        (''interpolations'', ZArray ZString)]"

definition IOTaskSchema :: "env \<Rightarrow> zod" where
  "IOTaskSchema E =
     ZObject
       [(''name'', ZString),
        (''icon'', ZOptional ZString),
        (''displayKey'', ZOptional ZString),
        (''noop'', ZDefault ZBoolean (JBool False)),
        (''delayUntil'', ZOptional (ZCoerceDate (new_Date E))),
        (''description'', ZOptional ZString),
        (''elements'', ZOptional (ZArray (DisplayElementSchema E))),
        (''params'', ZOptional (SerializableJsonSchema E))]"

definition RunTaskBodyInputSchema :: "env \<Rightarrow> zod" where
  "RunTaskBodyInputSchema E = extend (IOTaskSchema E) [(''idempotencyKey'', ZString)]"



section \<open>The Task Ledger\<close>

text \<open>
  Modelled from the spec: the Task Ledger is missing from the sources (\<^verbatim>\<open>api.ts\<close> holds
  the wire schemas only). Its data follow sections 3 and 4.1 of the spec: a task has
  params, a status, an output or an error payload, and possibly a deadline; the ledger
  keeps the tasks by execution id and idempotency key. The side effects act on a state
  of the outside world, and the ledger logs every invocation.
\<close>

datatype task_status = Pending | Running | Completed | Errored

record task =
  params :: jsval
  status :: task_status
  taskOutput :: jsval
  errorPayload :: jsval
  delayUntil :: "int option"

datatype task_result =
    Output jsval
  | TaskExecutionError jsval
  | IdempotencyConflictError
  | Suspended int
  | InFlight

record 'w ledger =
  tasks :: "string \<times> string \<Rightarrow> task option"
  world :: 'w
  invoked :: "(string \<times> string) list"

text \<open>
  Modelled from the spec: the operation \<^verbatim>\<open>runTask\<close> of the missing Task Ledger, after
  section 4.1, \<^verbatim>\<open>runTask(executionId, idempotencyKey, params, sideEffect)\<close>, one call at a
  time:
  \<^item> no task for the key: with a \<^verbatim>\<open>delayUntil\<close> the task is marked pending and the run is
    suspended; otherwise the task is created, the side effect is invoked once, and the
    task is persisted as completed with its output, or as errored with the error payload;
  \<^item> a task with the key and different params: an idempotency conflict;
  \<^item> a completed task with matching params: the cached output, no invocation;
  \<^item> a pending task: once the deadline has passed it resolves with an empty output.
  The spec gives no rule for a later call that meets an errored task, and lets a call
  that meets a running task wait for the call in flight; the model invokes nothing in
  either case and answers with the stored error, respectively \<open>InFlight\<close>.
\<close>

definition runTask ::
  "int \<Rightarrow> string \<Rightarrow> string \<Rightarrow> jsval \<Rightarrow> int option \<Rightarrow> ('w \<Rightarrow> (jsval + jsval) \<times> 'w) \<Rightarrow>
     'w ledger \<Rightarrow> task_result \<times> 'w ledger" where
  "runTask now ex k p delay sideEffect L =
     (case tasks L (ex, k) of
        None \<Rightarrow>
          (case delay of
             Some deadline \<Rightarrow>
               (Suspended deadline,
                L\<lparr>tasks := (tasks L)((ex, k) \<mapsto>
                     \<lparr>params = p, status = Pending, taskOutput = JUndefined,
                      errorPayload = JUndefined, delayUntil = Some deadline\<rparr>)\<rparr>)
           | None \<Rightarrow>
               (case sideEffect (world L) of
                  (Inr out, w') \<Rightarrow>
                    (Output out,
                     L\<lparr>tasks := (tasks L)((ex, k) \<mapsto>
                          \<lparr>params = p, status = Completed, taskOutput = out,
                           errorPayload = JUndefined, delayUntil = None\<rparr>),
                       world := w', invoked := invoked L @ [(ex, k)]\<rparr>)
                | (Inl err, w') \<Rightarrow>
                    (TaskExecutionError err,
                     L\<lparr>tasks := (tasks L)((ex, k) \<mapsto>
                          \<lparr>params = p, status = Errored, taskOutput = JUndefined,
                           errorPayload = err, delayUntil = None\<rparr>),
                       world := w', invoked := invoked L @ [(ex, k)]\<rparr>)))
      | Some t \<Rightarrow>
          if params t \<noteq> p then (IdempotencyConflictError, L)
          else
            (case status t of
               Completed \<Rightarrow> (Output (taskOutput t), L)
             | Errored \<Rightarrow> (TaskExecutionError (errorPayload t), L)
             | Running \<Rightarrow> (InFlight, L)
             | Pending \<Rightarrow>
                 (case delayUntil t of
                    Some deadline \<Rightarrow>
                      if deadline \<le> now
                      then (Output JUndefined,
                            L\<lparr>tasks := (tasks L)((ex, k) \<mapsto> t\<lparr>status := Completed\<rparr>)\<rparr>)
                      else (Suspended deadline, L)
                  | None \<Rightarrow> (InFlight, L))))"

section \<open>An example environment\<close>

text \<open>
  One admissible choice of the parameters, on which the schemas can be run. The JSON
  schemas accept the JSON trees (the serializable one also \<^verbatim>\<open>undefined\<close> and dates);
  the task schema has the fields the spec lists for a Task, the connection auth an
  access token; the runtime functions are finite tables with the runtime's answers
  on the strings used below, and \<open>isURL\<close> accepts the https URLs.
\<close>

function (sequential) is_json :: "jsval \<Rightarrow> bool" where
  "is_json JUndefined = False"
| "is_json (JDate t) = False"
| "is_json (JArr xs) = list_all is_json xs"
| "is_json (JObj kvs) = list_all (\<lambda>kv. is_json (snd kv)) kvs"
| "is_json v = True"
  by pat_completeness auto

termination is_json
  apply (relation "measure size")
  apply (auto dest: size_property_less simp: less_Suc_eq_le size_list_estimation')
  done

function (sequential) is_serializable :: "jsval \<Rightarrow> bool" where
  "is_serializable (JArr xs) = list_all is_serializable xs"
| "is_serializable (JObj kvs) = list_all (\<lambda>kv. is_serializable (snd kv)) kvs"
| "is_serializable v = True"
  by pat_completeness auto

termination is_serializable
  apply (relation "measure size")
  apply (auto dest: size_property_less simp: less_Suc_eq_le size_list_estimation')
  done

definition example_env :: env where
  \<open>example_env =
     \<lparr>DeserializedJsonSchema = ZodType (\<lambda>v. if is_json v then Inr v else Inl INVALID),
      SerializableJsonSchema = ZodType (\<lambda>v. if is_serializable v then Inr v else Inl INVALID),
      TaskSchema =
        ZObject
          [(''id'', ZString), (''name'', ZString), (''idempotencyKey'', ZString),
           (''params'', ZOptional (ZodType (\<lambda>v. if is_json v then Inr v else Inl INVALID))),
           (''output'', ZOptional (ZodType (\<lambda>v. if is_json v then Inr v else Inl INVALID))),
           (''status'', ZString), (''delayUntil'', ZOptional ZString), (''noop'', ZBoolean)],
      DisplayElementSchema = ZObject [(''label'', ZString), (''text'', ZString)],
      ConnectionAuthSchema =
        ZObject [(''type'', ZLiteral (JStr ''oauth2'')), (''accessToken'', ZString)],
      isURL = (\<lambda>s. take 8 s = ''https://'' \<and> 8 < length s),
      isDatetime = (\<lambda>s. s = ''2023-01-01T00:00:00.000Z''),
      Date_parse = (\<lambda>v. if v = JStr ''2023-01-01T00:00:00.000Z'' then Some 1672531200000 else None),
      toISOString = (\<lambda>t. if t = 1672531200000 then ''2023-01-01T00:00:00.000Z'' else []),
      JSON_parse =
        (\<lambda>s. if s = ''{}'' then Some (JObj [])
             else if s = ''{"type":"oauth2","accessToken":"tok"}''
             then Some (JObj [(''type'', JStr ''oauth2''), (''accessToken'', JStr ''tok'')])
             else None),
      clock = 1672531200000,
      prng = (\<lambda>i. i)\<rparr>\<close>

text \<open>
  A ledger with no task, over a world that counts the e-mails sent, and a side effect
  that sends one.
\<close>

definition empty_ledger :: "nat ledger" where
  "empty_ledger = \<lparr>tasks = Map.empty, world = 0, invoked = []\<rparr>"

definition send_email :: "nat \<Rightarrow> (jsval + jsval) \<times> nat" where
  "send_email n = (Inr (JObj [(''sent'', JNum (int (Suc n)))]), Suc n)"

text \<open>The properties an object keeps from its parsed fields (a device of the proofs).\<close>

definition kept :: "jsval \<Rightarrow> string \<times> (error + jsval) \<Rightarrow> (string \<times> jsval) list" where
  "kept d p =
     (case snd p of
        Inr x \<Rightarrow> if x \<noteq> JUndefined \<or> has_key d (fst p) then [(fst p, x)] else []
      | Inl e \<Rightarrow> [])"

section \<open>The properties the claims state\<close>

text \<open>
  The reassembly invariant of the spec's secure string (section 9): literal and
  interpolated parts alternate, so there is one more literal than interpolations.
  \<open>arrayLength\<close> is the \<^verbatim>\<open>length\<close> of an array.
\<close>

definition arrayLength :: "jsval \<Rightarrow> nat" where
  "arrayLength v = (case v of JArr xs \<Rightarrow> length xs | _ \<Rightarrow> 0)"

definition reassembles :: "jsval \<Rightarrow> bool" where
  "reassembles v \<longleftrightarrow> arrayLength (get v ''strings'') = arrayLength (get v ''interpolations'') + 1"

text \<open>
  The two shapes the spec gives a completion report (section 4.2): completed with an
  output and no task, or not completed with the task the run stopped on.
\<close>

definition completion_shape :: "jsval \<Rightarrow> bool" where
  "completion_shape r \<longleftrightarrow>
     (get r ''completed'' = JBool True \<and> get r ''output'' \<noteq> JUndefined \<and> get r ''task'' = JUndefined)
     \<or> (get r ''completed'' = JBool False \<and> get r ''task'' \<noteq> JUndefined)"

section \<open>Facts about the combinators\<close>

lemma parse_Inr_iff: "parse t v = Inr r \<longleftrightarrow> zparse t v = Inr r"
  by (auto simp: parse_def split: sum.splits error.splits)

lemma mergeObject_Inr_all:
  "mergeObject d ps = Inr out \<Longrightarrow> (k, r) \<in> set ps \<Longrightarrow> \<exists>x. r = Inr x"
  by (induction d ps arbitrary: out rule: mergeObject.induct)
     (auto split: sum.splits error.splits)

lemma mergeObject_keys:
  "mergeObject d ps = Inr out \<Longrightarrow> a \<in> fst ` set out \<Longrightarrow> a \<in> fst ` set ps"
proof (induction d ps arbitrary: out rule: mergeObject.induct)
  case (4 d k v ps)
  from "4.prems"(1) obtain out' where out': "mergeObject d ps = Inr out'"
    and out: "out = (if v \<noteq> JUndefined \<or> has_key d k then (k, v) # out' else out')"
    by (auto split: sum.splits)
  from out "4.prems"(2) have "a = k \<or> a \<in> fst ` set out'" by (auto split: if_splits)
  with "4.IH"[OF out'] show ?case by auto
qed (auto split: sum.splits error.splits)

lemma mergeObject_lookup:
  "mergeObject d ps = Inr out \<Longrightarrow> distinct (map fst ps) \<Longrightarrow> (k, Inr x) \<in> set ps \<Longrightarrow>
   (case map_of out k of Some v \<Rightarrow> v | None \<Rightarrow> JUndefined) = x"
proof (induction d ps arbitrary: out rule: mergeObject.induct)
  case (4 d k' v ps)
  from "4.prems"(1) obtain out' where out': "mergeObject d ps = Inr out'"
    and out: "out = (if v \<noteq> JUndefined \<or> has_key d k' then (k', v) # out' else out')"
    by (auto split: sum.splits)
  show ?case
  proof (cases "k = k'")
    case True
    with "4.prems" have xv: "x = v" by (auto simp: image_iff)
    from "4.prems"(2) True have "k \<notin> fst ` set ps" by simp
    with mergeObject_keys[OF out'] have "k \<notin> fst ` set out'" by blast
    then have "map_of out' k = None" by (simp add: map_of_eq_None_iff)
    with out xv True show ?thesis by auto
  next
    case False
    with "4.prems" have "(k, Inr x) \<in> set ps" "distinct (map fst ps)" by auto
    from "4.IH"[OF out' this(2) this(1)] False out show ?thesis by auto
  qed
qed (auto split: sum.splits error.splits)

lemma mergeObject_total:
  "(\<forall>p \<in> set ps. \<exists>x. snd p = Inr x) \<Longrightarrow> \<exists>out. mergeObject d ps = Inr out"
  by (induction d ps rule: mergeObject.induct) auto

lemma zparse_object_shape:
  assumes "zparse (ZObject shape) v = Inr out"
  shows "\<exists>kvs okvs. v = JObj kvs \<and> out = JObj okvs \<and> fst ` set okvs \<subseteq> fst ` set shape"
proof -
  from assms obtain kvs where v: "v = JObj kvs" by (cases v) auto
  from assms v obtain okvs where
    m: "mergeObject v (map (\<lambda>ks. (fst ks, zparse (snd ks) (get v (fst ks)))) shape) = Inr okvs"
    and out: "out = JObj okvs" by (auto split: sum.splits)
  have "fst ` set okvs \<subseteq> fst ` set shape"
  proof
    fix a assume "a \<in> fst ` set okvs"
    from mergeObject_keys[OF m this] show "a \<in> fst ` set shape" by (force simp: image_iff)
  qed
  with v out show ?thesis by blast
qed

lemma zparse_object_field:
  assumes "zparse (ZObject shape) v = Inr out" "distinct (map fst shape)" "(k, s) \<in> set shape"
  shows "zparse s (get v k) = Inr (get out k)"
proof -
  from assms obtain kvs where v: "v = JObj kvs" by (cases v) auto
  let ?ps = "map (\<lambda>ks. (fst ks, zparse (snd ks) (get v (fst ks)))) shape"
  from assms v obtain okvs where m: "mergeObject v ?ps = Inr okvs"
    and out: "out = JObj okvs" by (auto split: sum.splits)
  have in_ps: "(k, zparse s (get v k)) \<in> set ?ps" using assms(3) by force
  from mergeObject_Inr_all[OF m in_ps] obtain x where x: "zparse s (get v k) = Inr x" by blast
  have d: "distinct (map fst ?ps)" using assms(2) by (simp add: comp_def)
  from mergeObject_lookup[OF m d] in_ps x have "get out k = x" by (simp add: out)
  with x show ?thesis by simp
qed

lemma zparse_object_absent:
  assumes "zparse (ZObject shape) v = Inr out" "k \<notin> fst ` set shape"
  shows "get out k = JUndefined \<and> \<not> has_key out k"
proof -
  from zparse_object_shape[OF assms(1)] obtain okvs where out: "out = JObj okvs"
    and sub: "fst ` set okvs \<subseteq> fst ` set shape" by blast
  from sub assms(2) have "k \<notin> fst ` set okvs" by blast
  then have "map_of okvs k = None" by (simp add: map_of_eq_None_iff)
  with \<open>k \<notin> fst ` set okvs\<close> show ?thesis by (simp add: out)
qed

lemma zparse_object_total:
  assumes "\<forall>ks \<in> set shape. \<exists>x. zparse (snd ks) (get (JObj kvs) (fst ks)) = Inr x"
  shows "\<exists>out. zparse (ZObject shape) (JObj kvs) = Inr out"
proof -
  let ?ps = "map (\<lambda>ks. (fst ks, zparse (snd ks) (get (JObj kvs) (fst ks)))) shape"
  have "\<forall>p \<in> set ?ps. \<exists>x. snd p = Inr x" using assms by auto
  from mergeObject_total[OF this] obtain okvs where "mergeObject (JObj kvs) ?ps = Inr okvs" by blast
  then show ?thesis by simp
qed

lemma mergeObject_concat:
  "(\<forall>p \<in> set ps. \<exists>x. snd p = Inr x) \<Longrightarrow> mergeObject d ps = Inr (concat (map (kept d) ps))"
proof (induction ps)
  case Nil
  then show ?case by simp
next
  case (Cons p ps)
  then obtain k x where p: "p = (k, Inr x)" by (cases p) auto
  from Cons have "mergeObject d ps = Inr (concat (map (kept d) ps))" by simp
  moreover have "kept d (k, Inr x) = (if x \<noteq> JUndefined \<or> has_key d k then [(k, x)] else [])"
    by (simp add: kept_def)
  ultimately show ?case by (simp add: p)
qed

lemma mergeObject_Inr_iff:
  "mergeObject d ps = Inr out \<longleftrightarrow>
     (\<forall>p \<in> set ps. \<exists>x. snd p = Inr x) \<and> out = concat (map (kept d) ps)"
proof
  assume m: "mergeObject d ps = Inr out"
  have all: "\<forall>p \<in> set ps. \<exists>x. snd p = Inr x"
  proof
    fix p assume "p \<in> set ps"
    then have "(fst p, snd p) \<in> set ps" by simp
    from mergeObject_Inr_all[OF m this] show "\<exists>x. snd p = Inr x" .
  qed
  from mergeObject_concat[OF all, of d] m show
    "(\<forall>p \<in> set ps. \<exists>x. snd p = Inr x) \<and> out = concat (map (kept d) ps)"
    using all by simp
next
  assume "(\<forall>p \<in> set ps. \<exists>x. snd p = Inr x) \<and> out = concat (map (kept d) ps)"
  then show "mergeObject d ps = Inr out" by (simp add: mergeObject_concat)
qed

lemma zparse_ZObject_iff:
  "zparse (ZObject shape) v = Inr out \<longleftrightarrow>
     (\<exists>kvs. v = JObj kvs) \<and>
     (\<forall>ks \<in> set shape. \<exists>x. zparse (snd ks) (get v (fst ks)) = Inr x) \<and>
     out = JObj (concat (map (\<lambda>ks. kept v (fst ks, zparse (snd ks) (get v (fst ks)))) shape))"
proof (cases v)
  case (JObj kvs)
  let ?ps = "map (\<lambda>ks. (fst ks, zparse (snd ks) (get v (fst ks)))) shape"
  have "zparse (ZObject shape) v = Inr out \<longleftrightarrow> (\<exists>okvs. mergeObject v ?ps = Inr okvs \<and> out = JObj okvs)"
    using JObj by (auto split: sum.splits)
  also have "\<dots> \<longleftrightarrow> (\<forall>p \<in> set ?ps. \<exists>x. snd p = Inr x) \<and> out = JObj (concat (map (kept v) ?ps))"
    by (auto simp: mergeObject_Inr_iff)
  finally show ?thesis using JObj by (simp add: comp_def)
qed simp_all

lemma zparse_ZString_iff: "zparse ZString x = Inr r \<longleftrightarrow> (\<exists>s. x = JStr s) \<and> r = x"
  by (cases x) auto

lemma zparse_ZBoolean_iff: "zparse ZBoolean x = Inr r \<longleftrightarrow> (\<exists>b. x = JBool b) \<and> r = x"
  by (cases x) auto

lemma zparse_ZLiteral_iff: "zparse (ZLiteral l) x = Inr r \<longleftrightarrow> x = l \<and> r = l"
  by auto

lemma zparse_ZStringCheck_iff:
  "zparse (ZStringCheck ok) x = Inr r \<longleftrightarrow> (\<exists>s. x = JStr s \<and> ok s) \<and> r = x"
  by (cases x) auto

lemma zparse_optional_string_iff:
  "zparse (ZOptional ZString) x = Inr r \<longleftrightarrow> (x = JUndefined \<or> (\<exists>s. x = JStr s)) \<and> r = x"
  by (cases x) auto

lemma mergeObject_cong:
  "(\<forall>k \<in> fst ` set ps. has_key d k = has_key d' k) \<Longrightarrow> mergeObject d ps = mergeObject d' ps"
  by (induction d ps rule: mergeObject.induct) (auto split: sum.splits error.splits)

lemma zparse_object_cong:
  assumes "\<forall>k \<in> fst ` set shape. get (JObj a) k = get (JObj b) k \<and> has_key (JObj a) k = has_key (JObj b) k"
  shows "zparse (ZObject shape) (JObj a) = zparse (ZObject shape) (JObj b)"
proof -
  have m: "map (\<lambda>ks. (fst ks, zparse (snd ks) (get (JObj a) (fst ks)))) shape
         = map (\<lambda>ks. (fst ks, zparse (snd ks) (get (JObj b) (fst ks)))) shape"
    using assms by (intro map_cong) (auto simp del: get.simps)
  have "mergeObject (JObj a) (map (\<lambda>ks. (fst ks, zparse (snd ks) (get (JObj b) (fst ks)))) shape)
      = mergeObject (JObj b) (map (\<lambda>ks. (fst ks, zparse (snd ks) (get (JObj b) (fst ks)))) shape)"
    using assms by (intro mergeObject_cong) (auto simp: image_iff simp del: get.simps has_key.simps)
  then show ?thesis unfolding zparse.simps jsval.case m by simp
qed

lemma map_of_filter_other:
  "k' \<noteq> k \<Longrightarrow> map_of (filter (\<lambda>p. fst p \<noteq> k) kvs) k' = map_of kvs k'"
  by (induction kvs) auto

lemma get_filter_other:
  "k' \<noteq> k \<Longrightarrow> get (JObj (filter (\<lambda>p. fst p \<noteq> k) kvs)) k' = get (JObj kvs) k'"
  by (simp add: map_of_filter_other)

lemma has_key_filter_other:
  "k' \<noteq> k \<Longrightarrow> has_key (JObj (filter (\<lambda>p. fst p \<noteq> k) kvs)) k' = has_key (JObj kvs) k'"
  by (induction kvs) auto

lemma zparse_ZOptional_iff:
  "(\<exists>r. zparse (ZOptional t) x = Inr r) \<longleftrightarrow> x = JUndefined \<or> (\<exists>r. zparse t x = Inr r)"
  by auto

lemma zparse_ZCoerceDate_iff:
  "zparse (ZCoerceDate nd) x = Inr r \<longleftrightarrow> (\<exists>t. nd x = Some t \<and> r = JDate t)"
  by (auto split: option.splits)

lemma zparse_nullable_optional_iff:
  "zparse (ZNullable (ZOptional t)) x = Inr r \<longleftrightarrow>
     (x = JNull \<and> r = JNull) \<or> (x = JUndefined \<and> r = JUndefined)
     \<or> (x \<noteq> JNull \<and> x \<noteq> JUndefined \<and> zparse t x = Inr r)"
  by auto

lemma zparse_nullable_optional_date_iff:
  "zparse (ZNullable (ZOptional (ZCoerceDate nd))) x = Inr r \<longleftrightarrow>
     (x = JNull \<and> r = JNull) \<or> (x = JUndefined \<and> r = JUndefined)
     \<or> (\<exists>t. x \<noteq> JNull \<and> x \<noteq> JUndefined \<and> nd x = Some t \<and> r = JDate t)"
  unfolding zparse_nullable_optional_iff zparse_ZCoerceDate_iff by blast

lemma kept_Inr: "kept d (k, Inr x) = (if x \<noteq> JUndefined \<or> has_key d k then [(k, x)] else [])"
  by (simp add: kept_def)

lemma zparse_optional_iff:
  "zparse (ZOptional t) x = Inr r \<longleftrightarrow>
     (x = JUndefined \<and> r = JUndefined) \<or> (x \<noteq> JUndefined \<and> zparse t x = Inr r)"
  by auto

section \<open>The claims\<close>

subsection \<open>C1: idempotent replay\<close>

lemma runTask_twice:
  assumes fresh: "tasks L (ex, k) = None"
    and ok: "sideEffect (world L) = (Inr out, w')"
    and first: "runTask now ex k p None sideEffect L = (r1, L1)"
    and second: "runTask now' ex k p None sideEffect' L1 = (r2, L2)"
  shows "r1 = Output out \<and> r2 = Output out
    \<and> invoked L2 = invoked L @ [(ex, k)]
    \<and> world L2 = w'
    \<and> L2 = L1
    \<and> (\<exists>t. tasks L1 (ex, k) = Some t \<and> status t = Completed \<and> params t = p \<and> taskOutput t = out)"
proof -
  from fresh ok first have r1: "r1 = Output out"
    and L1: "L1 = L\<lparr>tasks := (tasks L)((ex, k) \<mapsto>
                 \<lparr>params = p, status = Completed, taskOutput = out,
                  errorPayload = JUndefined, delayUntil = None\<rparr>),
               world := w', invoked := invoked L @ [(ex, k)]\<rparr>"
    by (auto simp: runTask_def)
  have t: "tasks L1 (ex, k) = Some \<lparr>params = p, status = Completed, taskOutput = out,
                  errorPayload = JUndefined, delayUntil = None\<rparr>"
    by (simp add: L1)
  from second t have r2: "r2 = Output out" and L2: "L2 = L1"
    by (auto simp: runTask_def)
  from r1 r2 L2 L1 t show ?thesis by simp
qed

lemma runTask_replay:
  assumes "tasks L (ex, k) = Some t" "status t = Completed" "params t = p"
  shows "runTask now ex k p delay sideEffect L = (Output (taskOutput t), L)"
  using assms by (simp add: runTask_def)

text \<open>
  Claim C1. A call of \<^verbatim>\<open>runTask\<close> that finds its task completed with matching params
  returns the cached output and leaves the ledger, the world and the log of invocations
  as they were. Hence, when no task exists for the key and the side effect succeeds,
  two calls with the same key and params both return the output of the one invocation:
  the log grows by exactly one entry, the world is the one the first side effect left,
  and the side effect handed to the second call is never run.
\<close>

theorem runTask_idempotent_replay:
  "(tasks L (ex, k) = Some t \<and> status t = Completed \<and> params t = p \<longrightarrow>
      runTask now ex k p delay sideEffect L = (Output (taskOutput t), L))
   \<and> (tasks L (ex, k) = None \<and> sideEffect (world L) = (Inr out, w')
      \<and> runTask now ex k p None sideEffect L = (r1, L1)
      \<and> runTask now' ex k p None sideEffect' L1 = (r2, L2) \<longrightarrow>
      r1 = Output out \<and> r2 = Output out
      \<and> invoked L2 = invoked L @ [(ex, k)]
      \<and> world L2 = w'
      \<and> L2 = L1
      \<and> (\<exists>t'. tasks L1 (ex, k) = Some t' \<and> status t' = Completed \<and> params t' = p \<and>
            taskOutput t' = out))"
proof (intro conjI impI)
  assume "tasks L (ex, k) = Some t \<and> status t = Completed \<and> params t = p"
  then show "runTask now ex k p delay sideEffect L = (Output (taskOutput t), L)"
    by (simp add: runTask_replay)
next
  assume a: "tasks L (ex, k) = None \<and> sideEffect (world L) = (Inr out, w')
      \<and> runTask now ex k p None sideEffect L = (r1, L1)
      \<and> runTask now' ex k p None sideEffect' L1 = (r2, L2)"
  then have "r1 = Output out \<and> r2 = Output out
      \<and> invoked L2 = invoked L @ [(ex, k)]
      \<and> world L2 = w'
      \<and> L2 = L1
      \<and> (\<exists>t'. tasks L1 (ex, k) = Some t' \<and> status t' = Completed \<and> params t' = p \<and>
            taskOutput t' = out)"
    using runTask_twice [of L ex k sideEffect out w' now p r1 L1 now' sideEffect' r2 L2] by blast
  then show "r1 = Output out" "r2 = Output out" "invoked L2 = invoked L @ [(ex, k)]"
    "world L2 = w'" "L2 = L1"
    "\<exists>t'. tasks L1 (ex, k) = Some t' \<and> status t' = Completed \<and> params t' = p \<and> taskOutput t' = out"
    by blast+
qed

theorem runTask_idempotent_replay_witness:
  "fst (runTask 0 ''x1'' ''send-welcome-email'' (JObj [(''to'', JNum 42)]) None send_email empty_ledger)
     = Output (JObj [(''sent'', JNum 1)])
   \<and> fst (runTask 5 ''x1'' ''send-welcome-email'' (JObj [(''to'', JNum 42)]) None send_email
        (snd (runTask 0 ''x1'' ''send-welcome-email'' (JObj [(''to'', JNum 42)]) None send_email
               empty_ledger)))
     = Output (JObj [(''sent'', JNum 1)])
   \<and> invoked (snd (runTask 5 ''x1'' ''send-welcome-email'' (JObj [(''to'', JNum 42)]) None send_email
        (snd (runTask 0 ''x1'' ''send-welcome-email'' (JObj [(''to'', JNum 42)]) None send_email
               empty_ledger))))
     = [(''x1'', ''send-welcome-email'')]
   \<and> world (snd (runTask 5 ''x1'' ''send-welcome-email'' (JObj [(''to'', JNum 42)]) None send_email
        (snd (runTask 0 ''x1'' ''send-welcome-email'' (JObj [(''to'', JNum 42)]) None send_email
               empty_ledger))))
     = 1
   \<and> runTask 9 ''x1'' ''send-welcome-email'' (JObj [(''to'', JNum 42)]) None send_email
        (snd (runTask 0 ''x1'' ''send-welcome-email'' (JObj [(''to'', JNum 42)]) None send_email
               empty_ledger))
     = (Output (JObj [(''sent'', JNum 1)]),
        snd (runTask 0 ''x1'' ''send-welcome-email'' (JObj [(''to'', JNum 42)]) None send_email
               empty_ledger))"
proof -
  let ?p = "JObj [(''to'', JNum 42)]"
  let ?c1 = "runTask 0 ''x1'' ''send-welcome-email'' ?p None send_email empty_ledger"
  let ?c2 = "runTask 5 ''x1'' ''send-welcome-email'' ?p None send_email (snd ?c1)"
  let ?t = "\<lparr>params = ?p, status = Completed, taskOutput = JObj [(''sent'', JNum 1)],
             errorPayload = JUndefined, delayUntil = None\<rparr>"
  have fresh: "tasks empty_ledger (''x1'', ''send-welcome-email'') = None"
    by (simp add: empty_ledger_def)
  have ok: "send_email (world empty_ledger) = (Inr (JObj [(''sent'', JNum 1)]), 1)"
    by (simp add: empty_ledger_def send_email_def)
  have first: "?c1 = (fst ?c1, snd ?c1)" by simp
  have second: "?c2 = (fst ?c2, snd ?c2)" by simp
  note T = runTask_idempotent_replay [where delay = None and t = ?t, THEN conjunct2, THEN mp,
      OF conjI [OF fresh conjI [OF ok conjI [OF first second]]]]
  have i: "invoked empty_ledger @ [(''x1'', ''send-welcome-email'')] = [(''x1'', ''send-welcome-email'')]"
    by (simp add: empty_ledger_def)
  from T have a: "fst ?c1 = Output (JObj [(''sent'', JNum 1)])"
    by (rule conjunct1)
  from T have b: "fst ?c2 = Output (JObj [(''sent'', JNum 1)])"
    by (rule conjunct2 [THEN conjunct1])
  from T have "invoked (snd ?c2) = invoked empty_ledger @ [(''x1'', ''send-welcome-email'')]"
    by (rule conjunct2 [THEN conjunct2, THEN conjunct1])
  then have c: "invoked (snd ?c2) = [(''x1'', ''send-welcome-email'')]"
    using i by (rule trans)
  from T have d: "world (snd ?c2) = 1"
    by (rule conjunct2 [THEN conjunct2, THEN conjunct2, THEN conjunct1])
  have stored: "tasks (snd ?c1) (''x1'', ''send-welcome-email'') = Some ?t \<and> status ?t = Completed
      \<and> params ?t = ?p"
    by (simp add: runTask_def empty_ledger_def send_email_def)
  have "runTask 9 ''x1'' ''send-welcome-email'' ?p None send_email (snd ?c1)
          = (Output (taskOutput ?t), snd ?c1)"
    by (rule runTask_idempotent_replay [THEN conjunct1, THEN mp, OF stored])
  then have e: "runTask 9 ''x1'' ''send-welcome-email'' ?p None send_email (snd ?c1)
          = (Output (JObj [(''sent'', JNum 1)]), snd ?c1)"
    by simp
  show ?thesis by (rule conjI [OF a conjI [OF b conjI [OF c conjI [OF d e]]]])
qed

subsection \<open>C2: the headers of an HTTP source request\<close>

text \<open>
  Claim C2 holds of the documented header (\<^verbatim>\<open>x-trigger-auth\<close> is
  \<^verbatim>\<open>JSON.stringify(options.auth)\<close>, and \<^verbatim>\<open>x-trigger-headers\<close> is read with \<^verbatim>\<open>JSON.parse\<close>),
  and the code breaks it: the transform of \<^verbatim>\<open>x-trigger-auth\<close> gives the header string itself
  to \<^verbatim>\<open>ConnectionAuthSchema.parse\<close>. Whenever \<^verbatim>\<open>ConnectionAuthSchema\<close> is an object schema,
  every header map with a non-empty \<^verbatim>\<open>x-trigger-auth\<close> fails to parse, with the
  \<^verbatim>\<open>ZodError\<close> thrown inside the transform.
\<close>

theorem x_trigger_auth_rejected:
  assumes "ConnectionAuthSchema E = ZObject shape"
    and "get v ''x-trigger-auth'' = JStr s" and "s \<noteq> []"
  shows "parse (HttpSourceRequestHeadersSchema E) v = Inl ZodError"
proof -
  from assms(2) obtain kvs where v: "v = JObj kvs" by (cases v) auto
  have a: "zparse (ZTransform (ZOptional ZString) (auth_transform E)) (get v ''x-trigger-auth'')
             = Inl (Throw ZodError)"
    using assms by (simp add: auth_transform_def parse_def)
  have k: "zparse ZString (get v ''x-trigger-key'') = Inl INVALID
         \<or> (\<exists>r. zparse ZString (get v ''x-trigger-key'') = Inr r)"
    by (cases "get v ''x-trigger-key''") (auto simp del: get.simps)
  have "zparse (HttpSourceRequestHeadersSchema E) v = Inl (Throw ZodError)"
    unfolding HttpSourceRequestHeadersSchema_def zparse.simps(8) v jsval.case list.map fst_conv snd_conv
    using k a unfolding v by (auto simp del: get.simps zparse.simps)
  then show ?thesis by (simp add: parse_def)
qed

theorem x_trigger_auth_rejected_witness:
  \<open>parse (HttpSourceRequestHeadersSchema example_env)
     (JObj [(''x-trigger-key'', JStr ''github''),
            (''x-trigger-auth'', JStr ''{"type":"oauth2","accessToken":"tok"}''),
            (''x-trigger-url'', JStr ''https://example.com/hooks/1''),
            (''x-trigger-method'', JStr ''POST''),
            (''x-trigger-headers'', JStr ''{}'')])
   = Inl ZodError
   \<and> parse (ConnectionAuthSchema example_env)
        (the (JSON_parse example_env ''{"type":"oauth2","accessToken":"tok"}''))
     = Inr (JObj [(''type'', JStr ''oauth2''), (''accessToken'', JStr ''tok'')])
   \<and> parse (HttpSourceRequestHeadersSchema example_env)
     (JObj [(''x-trigger-key'', JStr ''github''),
            (''x-trigger-url'', JStr ''https://example.com/hooks/1''),
            (''x-trigger-method'', JStr ''POST''),
            (''x-trigger-headers'', JStr ''{}'')])
   = Inr (JObj [(''x-trigger-key'', JStr ''github''),
            (''x-trigger-url'', JStr ''https://example.com/hooks/1''),
            (''x-trigger-method'', JStr ''POST''),
            (''x-trigger-headers'', JObj [])])\<close>
proof -
  let ?v = \<open>JObj [(''x-trigger-key'', JStr ''github''),
            (''x-trigger-auth'', JStr ''{"type":"oauth2","accessToken":"tok"}''),
            (''x-trigger-url'', JStr ''https://example.com/hooks/1''),
            (''x-trigger-method'', JStr ''POST''),
            (''x-trigger-headers'', JStr ''{}'')]\<close>
  have c: "ConnectionAuthSchema example_env
             = ZObject [(''type'', ZLiteral (JStr ''oauth2'')), (''accessToken'', ZString)]"
    by (simp add: example_env_def)
  have g: \<open>get ?v ''x-trigger-auth'' = JStr ''{"type":"oauth2","accessToken":"tok"}''\<close> by simp
  have n: \<open>''{"type":"oauth2","accessToken":"tok"}'' \<noteq> []\<close> by simp
  have 1: "parse (HttpSourceRequestHeadersSchema example_env) ?v = Inl ZodError"
    by (rule x_trigger_auth_rejected [OF c g n])
  have 2: \<open>parse (ConnectionAuthSchema example_env)
        (the (JSON_parse example_env ''{"type":"oauth2","accessToken":"tok"}''))
     = Inr (JObj [(''type'', JStr ''oauth2''), (''accessToken'', JStr ''tok'')])\<close>
    by (simp add: example_env_def parse_def)
  have 3: "parse (HttpSourceRequestHeadersSchema example_env)
     (JObj [(''x-trigger-key'', JStr ''github''),
            (''x-trigger-url'', JStr ''https://example.com/hooks/1''),
            (''x-trigger-method'', JStr ''POST''),
            (''x-trigger-headers'', JStr ''{}'')])
   = Inr (JObj [(''x-trigger-key'', JStr ''github''),
            (''x-trigger-url'', JStr ''https://example.com/hooks/1''),
            (''x-trigger-method'', JStr ''POST''),
            (''x-trigger-headers'', JObj [])])"
    by (simp add: parse_def HttpSourceRequestHeadersSchema_def example_env_def
        auth_transform_def headers_transform_def)
  show ?thesis by (rule conjI [OF 1 conjI [OF 2 3]])
qed

subsection \<open>C3: secure strings\<close>

lemma mergeArray_Inr_iff: "mergeArray rs = Inr ys \<longleftrightarrow> rs = map Inr ys"
proof (induction rs arbitrary: ys rule: mergeArray.induct)
  case 1
  show ?case by auto
next
  case (2 e rs)
  show ?case by auto
next
  case (3 rs)
  show ?case by (auto split: sum.splits error.splits)
next
  case (4 v rs)
  show ?case
  proof (cases "mergeArray rs")
    case (Inl e)
    with 4 have "\<And>zs. rs \<noteq> map Inr zs" by simp
    with Inl show ?thesis by auto
  next
    case (Inr zs)
    from 4[of zs] Inr have "rs = map Inr zs" by simp
    with Inr show ?thesis by auto
  qed
qed

lemma zparse_string_array:
  "zparse (ZArray ZString) (JArr (map JStr ss)) = Inr (JArr (map JStr ss))"
proof -
  have "map (zparse ZString) (map JStr ss) = map Inr (map JStr ss)" by simp
  then have "mergeArray (map (zparse ZString) (map JStr ss)) = Inr (map JStr ss)"
    unfolding mergeArray_Inr_iff .
  then show ?thesis unfolding zparse.simps by simp
qed

lemma map_zparse_strings:
  "map (zparse ZString) xs = map Inr ys \<Longrightarrow> ys = xs \<and> (\<exists>ss. xs = map JStr ss)"
proof (induction xs arbitrary: ys)
  case Nil
  then show ?case by simp
next
  case (Cons x xs)
  then obtain y ys' where ys: "ys = y # ys'" and h: "zparse ZString x = Inr y"
    and t: "map (zparse ZString) xs = map Inr ys'" by (cases ys) auto
  from h obtain s where x: "x = JStr s" and y: "y = x" by (cases x) auto
  from Cons.IH[OF t] obtain ss where "ys' = xs" "xs = map JStr ss" by blast
  then have "ys = x # xs" and "x # xs = map JStr (s # ss)" using ys y x by simp_all
  then show ?case by (intro conjI exI)
qed

lemma zparse_string_arrayD:
  assumes "zparse (ZArray ZString) x = Inr r"
  shows "\<exists>ss. x = JArr (map JStr ss) \<and> r = x"
proof -
  from assms obtain xs where x: "x = JArr xs" by (cases x) auto
  from assms x obtain ys where m: "mergeArray (map (zparse ZString) xs) = Inr ys" and r: "r = JArr ys"
    unfolding zparse.simps by (auto split: sum.splits)
  from m have "map (zparse ZString) xs = map Inr ys" unfolding mergeArray_Inr_iff .
  from map_zparse_strings[OF this] x r show ?thesis by blast
qed

lemma kept_defined: "x \<noteq> JUndefined \<Longrightarrow> kept d (k, Inr x) = [(k, x)]"
  by (simp add: kept_def)

text \<open>
  Claim C3, as amended. \<^verbatim>\<open>SecureStringSchema\<close> accepts exactly the objects whose
  \<^verbatim>\<open>__secureString\<close> is \<^verbatim>\<open>true\<close> and whose \<^verbatim>\<open>strings\<close> and \<^verbatim>\<open>interpolations\<close> are arrays
  of strings, and returns these three properties; the two arrays may have any lengths.
\<close>

theorem SecureStringSchema_accepts:
  "parse SecureStringSchema v = Inr out \<longleftrightarrow>
     (\<exists>kvs ss is. v = JObj kvs \<and> get v ''__secureString'' = JBool True \<and>
        get v ''strings'' = JArr (map JStr ss) \<and>
        get v ''interpolations'' = JArr (map JStr is) \<and>
        out = JObj [(''__secureString'', JBool True), (''strings'', JArr (map JStr ss)),
                    (''interpolations'', JArr (map JStr is))])"
  (is "?lhs \<longleftrightarrow> ?rhs")
proof
  assume ?lhs
  then have z: "zparse SecureStringSchema v = Inr out" by (simp add: parse_Inr_iff)
  then obtain kvs where v: "v = JObj kvs"
    and f1: "\<exists>x. zparse (ZLiteral (JBool True)) (get v ''__secureString'') = Inr x"
    and f2: "\<exists>x. zparse (ZArray ZString) (get v ''strings'') = Inr x"
    and f3: "\<exists>x. zparse (ZArray ZString) (get v ''interpolations'') = Inr x"
    and out: "out = JObj (kept v (''__secureString'', zparse (ZLiteral (JBool True)) (get v ''__secureString''))
                @ kept v (''strings'', zparse (ZArray ZString) (get v ''strings''))
                @ kept v (''interpolations'', zparse (ZArray ZString) (get v ''interpolations'')))"
    unfolding SecureStringSchema_def zparse_ZObject_iff
    by (auto simp del: get.simps zparse.simps)
  from f1 have g1: "get v ''__secureString'' = JBool True"
    by (auto simp: zparse_ZLiteral_iff simp del: get.simps zparse.simps)
  from f2 zparse_string_arrayD obtain ss where g2: "get v ''strings'' = JArr (map JStr ss)" by blast
  from f3 zparse_string_arrayD obtain "is" where g3: "get v ''interpolations'' = JArr (map JStr is)" by blast
  have "out = JObj [(''__secureString'', JBool True), (''strings'', JArr (map JStr ss)),
                    (''interpolations'', JArr (map JStr is))]"
    unfolding out g1 g2 g3 zparse_string_array by (simp add: kept_defined)
  with v g1 g2 g3 show ?rhs by blast
next
  assume ?rhs
  then obtain kvs ss "is" where v: "v = JObj kvs"
    and g1: "get v ''__secureString'' = JBool True"
    and g2: "get v ''strings'' = JArr (map JStr ss)"
    and g3: "get v ''interpolations'' = JArr (map JStr is)"
    and out: "out = JObj [(''__secureString'', JBool True), (''strings'', JArr (map JStr ss)),
                    (''interpolations'', JArr (map JStr is))]"
    by blast
  have "zparse SecureStringSchema v = Inr out"
    unfolding SecureStringSchema_def zparse_ZObject_iff
  proof (intro conjI)
    show "\<exists>kvs. v = JObj kvs" using v by blast
  qed (simp_all add: g1 g2 g3 out zparse_string_array kept_defined del: get.simps zparse.simps(6,8))
  then show ?lhs by (simp add: parse_Inr_iff)
qed

theorem SecureStringSchema_accepts_witness:
  "parse SecureStringSchema
     (JObj [(''__secureString'', JBool True), (''strings'', JArr [JStr ''a'']),
            (''interpolations'', JArr [JStr ''x'', JStr ''y'', JStr ''z''])])
   = Inr (JObj [(''__secureString'', JBool True), (''strings'', JArr [JStr ''a'']),
            (''interpolations'', JArr [JStr ''x'', JStr ''y'', JStr ''z''])])"
proof -
  let ?v = "JObj [(''__secureString'', JBool True), (''strings'', JArr [JStr ''a'']),
            (''interpolations'', JArr [JStr ''x'', JStr ''y'', JStr ''z''])]"
  have "\<exists>kvs ss is. ?v = JObj kvs \<and> get ?v ''__secureString'' = JBool True \<and>
        get ?v ''strings'' = JArr (map JStr ss) \<and>
        get ?v ''interpolations'' = JArr (map JStr is) \<and>
        ?v = JObj [(''__secureString'', JBool True), (''strings'', JArr (map JStr ss)),
                    (''interpolations'', JArr (map JStr is))]"
    apply (rule exI [of _ "[(''__secureString'', JBool True), (''strings'', JArr [JStr ''a'']),
            (''interpolations'', JArr [JStr ''x'', JStr ''y'', JStr ''z''])]"])
    apply (rule exI [of _ "[''a'']"])
    apply (rule exI [of _ "[''x'', ''y'', ''z'']"])
    apply simp
    done
  then show ?thesis unfolding SecureStringSchema_accepts [of ?v ?v] .
qed

text \<open>
  The claim as stated fails: the schema accepts a secure string with no literal part and
  no interpolation, where \<open>0 = 0 + 1\<close> would be needed.
\<close>

theorem SecureStringSchema_counterexample:
  "parse SecureStringSchema
     (JObj [(''__secureString'', JBool True), (''strings'', JArr []), (''interpolations'', JArr [])])
   = Inr (JObj [(''__secureString'', JBool True), (''strings'', JArr []), (''interpolations'', JArr [])])
   \<and> \<not> reassembles
     (JObj [(''__secureString'', JBool True), (''strings'', JArr []), (''interpolations'', JArr [])])"
  by (simp add: parse_def SecureStringSchema_def reassembles_def arrayLength_def)

subsection \<open>C4: persisted events\<close>

lemma ApiEventLog_parsed_fields:
  assumes "parse (ApiEventLogSchema E) v = Inr out"
  shows "get out ''source'' = JUndefined \<and> \<not> has_key out ''source''
    \<and> get v ''timestamp'' \<noteq> JUndefined
    \<and> (\<exists>t. get out ''timestamp'' = JDate t)
    \<and> (\<exists>i. get out ''id'' = JStr i)
    \<and> (\<exists>n. get out ''name'' = JStr n)
    \<and> (\<forall>k. has_key out k \<longrightarrow>
          k \<in> {''id'', ''name'', ''payload'', ''context'', ''timestamp'', ''deliverAt'', ''deliveredAt''})"
proof -
  from assms have z: "zparse (ZObject
       [(''id'', ZString),
        (''name'', ZString),
        (''payload'', DeserializedJsonSchema E),
        (''context'', ZNullable (ZOptional (DeserializedJsonSchema E))),
        (''timestamp'', ZCoerceDate (new_Date E)),
        (''deliverAt'', ZNullable (ZOptional (ZCoerceDate (new_Date E)))),
        (''deliveredAt'', ZNullable (ZOptional (ZCoerceDate (new_Date E))))]) v = Inr out"
    by (simp add: parse_Inr_iff ApiEventLogSchema_def)
  have s: "get out ''source'' = JUndefined \<and> \<not> has_key out ''source''"
    by (rule zparse_object_absent[OF z]) simp
  have "zparse (ZCoerceDate (new_Date E)) (get v ''timestamp'') = Inr (get out ''timestamp'')"
    by (rule zparse_object_field[OF z]) simp_all
  then obtain t where nd: "new_Date E (get v ''timestamp'') = Some t"
    and t: "get out ''timestamp'' = JDate t"
    unfolding zparse_ZCoerceDate_iff by blast
  from nd have req: "get v ''timestamp'' \<noteq> JUndefined" by (auto simp del: get.simps)
  have "zparse ZString (get v ''id'') = Inr (get out ''id'')"
    by (rule zparse_object_field[OF z]) simp_all
  then have i: "\<exists>i. get out ''id'' = JStr i" unfolding zparse_ZString_iff by metis
  have "zparse ZString (get v ''name'') = Inr (get out ''name'')"
    by (rule zparse_object_field[OF z]) simp_all
  then have n: "\<exists>n. get out ''name'' = JStr n" unfolding zparse_ZString_iff by metis
  from zparse_object_shape[OF z] obtain okvs where out: "out = JObj okvs"
    and sub: "fst ` set okvs \<subseteq> {''id'', ''name'', ''payload'', ''context'', ''timestamp'', ''deliverAt'', ''deliveredAt''}"
    by auto
  have keys: "\<forall>k. has_key out k \<longrightarrow>
          k \<in> {''id'', ''name'', ''payload'', ''context'', ''timestamp'', ''deliverAt'', ''deliveredAt''}"
    using sub unfolding out has_key.simps by blast
  from s req t i n keys show ?thesis by blast
qed

lemma ApiEventLog_exact:
  "parse (ApiEventLogSchema E) v = Inr out \<longleftrightarrow>
     (\<exists>kvs i n p c t da dd.
        v = JObj kvs
        \<and> get v ''id'' = JStr i
        \<and> get v ''name'' = JStr n
        \<and> zparse (DeserializedJsonSchema E) (get v ''payload'') = Inr p
        \<and> ((get v ''context'' = JNull \<and> c = JNull)
            \<or> (get v ''context'' = JUndefined \<and> c = JUndefined)
            \<or> (get v ''context'' \<noteq> JNull \<and> get v ''context'' \<noteq> JUndefined
                \<and> zparse (DeserializedJsonSchema E) (get v ''context'') = Inr c))
        \<and> new_Date E (get v ''timestamp'') = Some t
        \<and> ((get v ''deliverAt'' = JNull \<and> da = JNull)
            \<or> (get v ''deliverAt'' = JUndefined \<and> da = JUndefined)
            \<or> (\<exists>t'. get v ''deliverAt'' \<noteq> JNull \<and> get v ''deliverAt'' \<noteq> JUndefined
                \<and> new_Date E (get v ''deliverAt'') = Some t' \<and> da = JDate t'))
        \<and> ((get v ''deliveredAt'' = JNull \<and> dd = JNull)
            \<or> (get v ''deliveredAt'' = JUndefined \<and> dd = JUndefined)
            \<or> (\<exists>t'. get v ''deliveredAt'' \<noteq> JNull \<and> get v ''deliveredAt'' \<noteq> JUndefined
                \<and> new_Date E (get v ''deliveredAt'') = Some t' \<and> dd = JDate t'))
        \<and> out = JObj
            ([(''id'', JStr i), (''name'', JStr n)]
             @ (if p \<noteq> JUndefined \<or> has_key v ''payload'' then [(''payload'', p)] else [])
             @ (if c \<noteq> JUndefined \<or> has_key v ''context'' then [(''context'', c)] else [])
             @ [(''timestamp'', JDate t)]
             @ (if da \<noteq> JUndefined \<or> has_key v ''deliverAt'' then [(''deliverAt'', da)] else [])
             @ (if dd \<noteq> JUndefined \<or> has_key v ''deliveredAt'' then [(''deliveredAt'', dd)] else [])))"
  (is "?lhs \<longleftrightarrow> ?rhs")
proof
  assume ?lhs
  then have z: "zparse (ApiEventLogSchema E) v = Inr out" by (simp add: parse_Inr_iff)
  then obtain kvs ri rn p c rt da dd where v: "v = JObj kvs"
    and e1: "zparse ZString (get v ''id'') = Inr ri"
    and e2: "zparse ZString (get v ''name'') = Inr rn"
    and e3: "zparse (DeserializedJsonSchema E) (get v ''payload'') = Inr p"
    and e4: "zparse (ZNullable (ZOptional (DeserializedJsonSchema E))) (get v ''context'') = Inr c"
    and e5: "zparse (ZCoerceDate (new_Date E)) (get v ''timestamp'') = Inr rt"
    and e6: "zparse (ZNullable (ZOptional (ZCoerceDate (new_Date E)))) (get v ''deliverAt'') = Inr da"
    and e7: "zparse (ZNullable (ZOptional (ZCoerceDate (new_Date E)))) (get v ''deliveredAt'') = Inr dd"
    and out: "out = JObj
        (kept v (''id'', zparse ZString (get v ''id''))
         @ kept v (''name'', zparse ZString (get v ''name''))
         @ kept v (''payload'', zparse (DeserializedJsonSchema E) (get v ''payload''))
         @ kept v (''context'', zparse (ZNullable (ZOptional (DeserializedJsonSchema E))) (get v ''context''))
         @ kept v (''timestamp'', zparse (ZCoerceDate (new_Date E)) (get v ''timestamp''))
         @ kept v (''deliverAt'', zparse (ZNullable (ZOptional (ZCoerceDate (new_Date E)))) (get v ''deliverAt''))
         @ kept v (''deliveredAt'', zparse (ZNullable (ZOptional (ZCoerceDate (new_Date E)))) (get v ''deliveredAt'')))"
    unfolding ApiEventLogSchema_def zparse_ZObject_iff
    by (auto simp del: get.simps zparse.simps)
  from e1 obtain i where g1: "get v ''id'' = JStr i" and r1: "ri = JStr i"
    unfolding zparse_ZString_iff by auto
  from e2 obtain n where g2: "get v ''name'' = JStr n" and r2: "rn = JStr n"
    unfolding zparse_ZString_iff by auto
  from e5 obtain t where g5: "new_Date E (get v ''timestamp'') = Some t" and r5: "rt = JDate t"
    unfolding zparse_ZCoerceDate_iff by auto
  note c4 = e4 [unfolded zparse_nullable_optional_iff]
  note c6 = e6 [unfolded zparse_nullable_optional_date_iff]
  note c7 = e7 [unfolded zparse_nullable_optional_date_iff]
  have o: "out = JObj
            ([(''id'', JStr i), (''name'', JStr n)]
             @ (if p \<noteq> JUndefined \<or> has_key v ''payload'' then [(''payload'', p)] else [])
             @ (if c \<noteq> JUndefined \<or> has_key v ''context'' then [(''context'', c)] else [])
             @ [(''timestamp'', JDate t)]
             @ (if da \<noteq> JUndefined \<or> has_key v ''deliverAt'' then [(''deliverAt'', da)] else [])
             @ (if dd \<noteq> JUndefined \<or> has_key v ''deliveredAt'' then [(''deliveredAt'', dd)] else []))"
    unfolding out e1 e2 e3 e4 e5 e6 e7 kept_Inr r1 r2 r5 by simp
  show ?rhs
    apply (rule exI [of _ kvs], rule exI [of _ i], rule exI [of _ n], rule exI [of _ p])
    apply (rule exI [of _ c], rule exI [of _ t], rule exI [of _ da], rule exI [of _ dd])
    apply (intro conjI)
            apply (rule v, rule g1, rule g2, rule e3, rule c4, rule g5, rule c6, rule c7, rule o)
    done
next
  assume ?rhs
  then obtain kvs i n p c t da dd where v: "v = JObj kvs"
    and g1: "get v ''id'' = JStr i"
    and g2: "get v ''name'' = JStr n"
    and e3: "zparse (DeserializedJsonSchema E) (get v ''payload'') = Inr p"
    and c4: "(get v ''context'' = JNull \<and> c = JNull)
            \<or> (get v ''context'' = JUndefined \<and> c = JUndefined)
            \<or> (get v ''context'' \<noteq> JNull \<and> get v ''context'' \<noteq> JUndefined
                \<and> zparse (DeserializedJsonSchema E) (get v ''context'') = Inr c)"
    and g5: "new_Date E (get v ''timestamp'') = Some t"
    and c6: "(get v ''deliverAt'' = JNull \<and> da = JNull)
            \<or> (get v ''deliverAt'' = JUndefined \<and> da = JUndefined)
            \<or> (\<exists>t'. get v ''deliverAt'' \<noteq> JNull \<and> get v ''deliverAt'' \<noteq> JUndefined
                \<and> new_Date E (get v ''deliverAt'') = Some t' \<and> da = JDate t')"
    and c7: "(get v ''deliveredAt'' = JNull \<and> dd = JNull)
            \<or> (get v ''deliveredAt'' = JUndefined \<and> dd = JUndefined)
            \<or> (\<exists>t'. get v ''deliveredAt'' \<noteq> JNull \<and> get v ''deliveredAt'' \<noteq> JUndefined
                \<and> new_Date E (get v ''deliveredAt'') = Some t' \<and> dd = JDate t')"
    and o: "out = JObj
            ([(''id'', JStr i), (''name'', JStr n)]
             @ (if p \<noteq> JUndefined \<or> has_key v ''payload'' then [(''payload'', p)] else [])
             @ (if c \<noteq> JUndefined \<or> has_key v ''context'' then [(''context'', c)] else [])
             @ [(''timestamp'', JDate t)]
             @ (if da \<noteq> JUndefined \<or> has_key v ''deliverAt'' then [(''deliverAt'', da)] else [])
             @ (if dd \<noteq> JUndefined \<or> has_key v ''deliveredAt'' then [(''deliveredAt'', dd)] else []))"
    by (elim exE conjE)
  have e1: "zparse ZString (get v ''id'') = Inr (JStr i)" by (simp add: g1 del: get.simps)
  have e2: "zparse ZString (get v ''name'') = Inr (JStr n)" by (simp add: g2 del: get.simps)
  have e4: "zparse (ZNullable (ZOptional (DeserializedJsonSchema E))) (get v ''context'') = Inr c"
    unfolding zparse_nullable_optional_iff by (rule c4)
  have e5: "zparse (ZCoerceDate (new_Date E)) (get v ''timestamp'') = Inr (JDate t)"
    unfolding zparse_ZCoerceDate_iff using g5 by simp
  have e6: "zparse (ZNullable (ZOptional (ZCoerceDate (new_Date E)))) (get v ''deliverAt'') = Inr da"
    unfolding zparse_nullable_optional_date_iff by (rule c6)
  have e7: "zparse (ZNullable (ZOptional (ZCoerceDate (new_Date E)))) (get v ''deliveredAt'') = Inr dd"
    unfolding zparse_nullable_optional_date_iff by (rule c7)
  have "zparse (ApiEventLogSchema E) v = Inr out"
    unfolding ApiEventLogSchema_def zparse_ZObject_iff
  proof (intro conjI)
    show "\<exists>kvs. v = JObj kvs" using v by (rule exI)
  qed (simp_all add: e1 e2 e3 e4 e5 e6 e7 kept_Inr o del: get.simps zparse.simps has_key.simps)
  then show ?lhs by (simp add: parse_Inr_iff)
qed

text \<open>
  Claim C4, as amended. \<^verbatim>\<open>ApiEventLogSchema\<close> is an object schema of its own with the
  fields \<^verbatim>\<open>id\<close>, \<^verbatim>\<open>name\<close>, \<^verbatim>\<open>payload\<close>, \<^verbatim>\<open>context\<close>, \<^verbatim>\<open>timestamp\<close>, \<^verbatim>\<open>deliverAt\<close> and
  \<^verbatim>\<open>deliveredAt\<close>. It accepts exactly the objects whose \<^verbatim>\<open>id\<close> and \<^verbatim>\<open>name\<close> are strings,
  whose \<^verbatim>\<open>payload\<close> is accepted by \<^verbatim>\<open>DeserializedJsonSchema\<close>, whose \<^verbatim>\<open>context\<close> is absent,
  \<^verbatim>\<open>null\<close> or accepted by \<^verbatim>\<open>DeserializedJsonSchema\<close>, whose \<^verbatim>\<open>timestamp\<close> coerces to a valid
  date, and whose \<^verbatim>\<open>deliverAt\<close> and \<^verbatim>\<open>deliveredAt\<close> are each absent, \<^verbatim>\<open>null\<close> or coercible
  to a valid date. The parsed event log holds these fields as parsed, in this order
  (\<^verbatim>\<open>null\<close> stays \<^verbatim>\<open>null\<close>, an absent optional field stays absent), and nothing else: it
  has no \<^verbatim>\<open>source\<close>, and its \<^verbatim>\<open>timestamp\<close> is a date that the input had to give.
\<close>

theorem ApiEventLog_fields:
  "(parse (ApiEventLogSchema E) v = Inr out \<longleftrightarrow>
     (\<exists>kvs i n p c t da dd.
        v = JObj kvs
        \<and> get v ''id'' = JStr i
        \<and> get v ''name'' = JStr n
        \<and> zparse (DeserializedJsonSchema E) (get v ''payload'') = Inr p
        \<and> ((get v ''context'' = JNull \<and> c = JNull)
            \<or> (get v ''context'' = JUndefined \<and> c = JUndefined)
            \<or> (get v ''context'' \<noteq> JNull \<and> get v ''context'' \<noteq> JUndefined
                \<and> zparse (DeserializedJsonSchema E) (get v ''context'') = Inr c))
        \<and> new_Date E (get v ''timestamp'') = Some t
        \<and> ((get v ''deliverAt'' = JNull \<and> da = JNull)
            \<or> (get v ''deliverAt'' = JUndefined \<and> da = JUndefined)
            \<or> (\<exists>t'. get v ''deliverAt'' \<noteq> JNull \<and> get v ''deliverAt'' \<noteq> JUndefined
                \<and> new_Date E (get v ''deliverAt'') = Some t' \<and> da = JDate t'))
        \<and> ((get v ''deliveredAt'' = JNull \<and> dd = JNull)
            \<or> (get v ''deliveredAt'' = JUndefined \<and> dd = JUndefined)
            \<or> (\<exists>t'. get v ''deliveredAt'' \<noteq> JNull \<and> get v ''deliveredAt'' \<noteq> JUndefined
                \<and> new_Date E (get v ''deliveredAt'') = Some t' \<and> dd = JDate t'))
        \<and> out = JObj
            ([(''id'', JStr i), (''name'', JStr n)]
             @ (if p \<noteq> JUndefined \<or> has_key v ''payload'' then [(''payload'', p)] else [])
             @ (if c \<noteq> JUndefined \<or> has_key v ''context'' then [(''context'', c)] else [])
             @ [(''timestamp'', JDate t)]
             @ (if da \<noteq> JUndefined \<or> has_key v ''deliverAt'' then [(''deliverAt'', da)] else [])
             @ (if dd \<noteq> JUndefined \<or> has_key v ''deliveredAt'' then [(''deliveredAt'', dd)] else []))))
   \<and> (parse (ApiEventLogSchema E) v = Inr out \<longrightarrow>
        get out ''source'' = JUndefined \<and> \<not> has_key out ''source''
        \<and> get v ''timestamp'' \<noteq> JUndefined
        \<and> (\<exists>t. get out ''timestamp'' = JDate t)
        \<and> (\<exists>i. get out ''id'' = JStr i)
        \<and> (\<exists>n. get out ''name'' = JStr n)
        \<and> (\<forall>k. has_key out k \<longrightarrow>
              k \<in> {''id'', ''name'', ''payload'', ''context'', ''timestamp'', ''deliverAt'',
                   ''deliveredAt''}))"
  by (rule conjI [OF ApiEventLog_exact], rule impI, rule ApiEventLog_parsed_fields)

theorem ApiEventLog_fields_witness:
  "parse (ApiEventLogSchema example_env)
     (JObj [(''id'', JStr ''e1''), (''name'', JStr ''user.created''), (''source'', JStr ''trigger.dev''),
            (''payload'', JObj [(''id'', JNum 42)]), (''context'', JNull),
            (''timestamp'', JStr ''2023-01-01T00:00:00.000Z''),
            (''deliverAt'', JNum 1672531260000)])
   = Inr (JObj [(''id'', JStr ''e1''), (''name'', JStr ''user.created''),
            (''payload'', JObj [(''id'', JNum 42)]), (''context'', JNull),
            (''timestamp'', JDate 1672531200000), (''deliverAt'', JDate 1672531260000)])
   \<and> get (JObj [(''id'', JStr ''e1''), (''name'', JStr ''user.created''),
            (''payload'', JObj [(''id'', JNum 42)]), (''context'', JNull),
            (''timestamp'', JDate 1672531200000), (''deliverAt'', JDate 1672531260000)]) ''source''
       = JUndefined"
proof -
  let ?kvs = "[(''id'', JStr ''e1''), (''name'', JStr ''user.created''), (''source'', JStr ''trigger.dev''),
            (''payload'', JObj [(''id'', JNum 42)]), (''context'', JNull),
            (''timestamp'', JStr ''2023-01-01T00:00:00.000Z''),
            (''deliverAt'', JNum 1672531260000)]"
  let ?out = "JObj [(''id'', JStr ''e1''), (''name'', JStr ''user.created''),
            (''payload'', JObj [(''id'', JNum 42)]), (''context'', JNull),
            (''timestamp'', JDate 1672531200000), (''deliverAt'', JDate 1672531260000)]"
  have p: "parse (ApiEventLogSchema example_env) (JObj ?kvs) = Inr ?out"
    apply (rule ApiEventLog_fields [THEN conjunct1, THEN iffD2])
    apply (rule exI [of _ ?kvs], rule exI [of _ "''e1''"], rule exI [of _ "''user.created''"])
    apply (rule exI [of _ "JObj [(''id'', JNum 42)]"], rule exI [of _ JNull])
    apply (rule exI [of _ 1672531200000], rule exI [of _ "JDate 1672531260000"])
    apply (rule exI [of _ JUndefined])
    apply (simp add: example_env_def)
    done
  have s: "get ?out ''source'' = JUndefined"
    by (rule ApiEventLog_fields [THEN conjunct2, THEN mp, OF p, THEN conjunct1])
  show ?thesis by (rule conjI [OF p s])
qed

text \<open>
  The claim as stated fails: an event with every field of a raw event but no
  \<^verbatim>\<open>timestamp\<close> is rejected, and once it has one the parsed event log has lost its
  \<^verbatim>\<open>source\<close>.
\<close>

theorem ApiEventLog_counterexample:
  "parse (ApiEventLogSchema example_env)
     (JObj [(''id'', JStr ''e1''), (''name'', JStr ''user.created''), (''source'', JStr ''trigger.dev''),
            (''payload'', JObj [(''id'', JNum 42)])])
   = Inl ZodError
   \<and> parse (ApiEventLogSchema example_env)
     (JObj [(''id'', JStr ''e1''), (''name'', JStr ''user.created''), (''source'', JStr ''trigger.dev''),
            (''payload'', JObj [(''id'', JNum 42)]),
            (''timestamp'', JStr ''2023-01-01T00:00:00.000Z'')])
   = Inr (JObj [(''id'', JStr ''e1''), (''name'', JStr ''user.created''),
            (''payload'', JObj [(''id'', JNum 42)]), (''timestamp'', JDate 1672531200000)])
   \<and> get (JObj [(''id'', JStr ''e1''), (''name'', JStr ''user.created''),
            (''payload'', JObj [(''id'', JNum 42)]), (''timestamp'', JDate 1672531200000)]) ''source''
       = JUndefined"
  by (simp add: parse_def ApiEventLogSchema_def example_env_def)

subsection \<open>C5: registered HTTP event sources\<close>

lemma HttpEventSourceSchema_shape:
  "HttpEventSourceSchema E =
     ZObject
       [(''connectionId'', ZOptional ZString),
        (''secret'', ZOptional ZString),
        (''data'', ZOptional (SerializableJsonSchema E)),
        (''active'', ZBoolean),
        (''id'', ZString),
        (''url'', ZStringCheck (isURL E))]"
  by (simp add: HttpEventSourceSchema_def UpdateHttpEventSourceBodySchema_def
      RegisterHttpEventSourceBodySchema_def)

lemma HttpEventSource_ignores_key:
  "parse (HttpEventSourceSchema E) (JObj (filter (\<lambda>p. fst p \<noteq> ''key'') kvs))
     = parse (HttpEventSourceSchema E) (JObj kvs)"
proof -
  have "zparse (HttpEventSourceSchema E) (JObj (filter (\<lambda>p. fst p \<noteq> ''key'') kvs))
      = zparse (HttpEventSourceSchema E) (JObj kvs)"
    unfolding HttpEventSourceSchema_shape
    by (rule zparse_object_cong)
       (simp add: get_filter_other has_key_filter_other del: get.simps has_key.simps)
  then show ?thesis by (simp add: parse_def)
qed

lemma HttpEventSource_parsed_fields:
  assumes "parse (HttpEventSourceSchema E) v = Inr out"
  shows "get out ''key'' = JUndefined \<and> \<not> has_key out ''key''
    \<and> (\<exists>i. get out ''id'' = JStr i)
    \<and> (\<exists>u. get out ''url'' = JStr u \<and> isURL E u)
    \<and> (\<exists>b. get out ''active'' = JBool b)
    \<and> (get out ''secret'' = JUndefined \<or> (\<exists>s. get out ''secret'' = JStr s))
    \<and> (get out ''connectionId'' = JUndefined \<or> (\<exists>c. get out ''connectionId'' = JStr c))"
proof -
  from assms have z: "zparse (ZObject
       [(''connectionId'', ZOptional ZString),
        (''secret'', ZOptional ZString),
        (''data'', ZOptional (SerializableJsonSchema E)),
        (''active'', ZBoolean),
        (''id'', ZString),
        (''url'', ZStringCheck (isURL E))]) v = Inr out"
    by (simp add: parse_Inr_iff HttpEventSourceSchema_shape)
  have k: "get out ''key'' = JUndefined \<and> \<not> has_key out ''key''"
    by (rule zparse_object_absent[OF z]) simp
  have "zparse ZString (get v ''id'') = Inr (get out ''id'')"
    by (rule zparse_object_field[OF z]) simp_all
  then have i: "\<exists>i. get out ''id'' = JStr i" unfolding zparse_ZString_iff by metis
  have "zparse (ZStringCheck (isURL E)) (get v ''url'') = Inr (get out ''url'')"
    by (rule zparse_object_field[OF z]) simp_all
  then have u: "\<exists>u. get out ''url'' = JStr u \<and> isURL E u" unfolding zparse_ZStringCheck_iff by metis
  have "zparse ZBoolean (get v ''active'') = Inr (get out ''active'')"
    by (rule zparse_object_field[OF z]) simp_all
  then have a: "\<exists>b. get out ''active'' = JBool b" unfolding zparse_ZBoolean_iff by metis
  have "zparse (ZOptional ZString) (get v ''secret'') = Inr (get out ''secret'')"
    by (rule zparse_object_field[OF z]) simp_all
  then have s: "get out ''secret'' = JUndefined \<or> (\<exists>s. get out ''secret'' = JStr s)"
    unfolding zparse_optional_string_iff by metis
  have "zparse (ZOptional ZString) (get v ''connectionId'') = Inr (get out ''connectionId'')"
    by (rule zparse_object_field[OF z]) simp_all
  then have c: "get out ''connectionId'' = JUndefined \<or> (\<exists>c. get out ''connectionId'' = JStr c)"
    unfolding zparse_optional_string_iff by metis
  from k i u a s c show ?thesis by blast
qed

lemma HttpEventSource_exact:
  "parse (HttpEventSourceSchema E) v = Inr out \<longleftrightarrow>
     (\<exists>kvs c s d b i u.
        v = JObj kvs
        \<and> get v ''connectionId'' = c \<and> (c = JUndefined \<or> (\<exists>x. c = JStr x))
        \<and> get v ''secret'' = s \<and> (s = JUndefined \<or> (\<exists>x. s = JStr x))
        \<and> ((get v ''data'' = JUndefined \<and> d = JUndefined)
            \<or> (get v ''data'' \<noteq> JUndefined
                \<and> zparse (SerializableJsonSchema E) (get v ''data'') = Inr d))
        \<and> get v ''active'' = JBool b
        \<and> get v ''id'' = JStr i
        \<and> get v ''url'' = JStr u \<and> isURL E u
        \<and> out = JObj
            ((if c \<noteq> JUndefined \<or> has_key v ''connectionId'' then [(''connectionId'', c)] else [])
             @ (if s \<noteq> JUndefined \<or> has_key v ''secret'' then [(''secret'', s)] else [])
             @ (if d \<noteq> JUndefined \<or> has_key v ''data'' then [(''data'', d)] else [])
             @ [(''active'', JBool b), (''id'', JStr i), (''url'', JStr u)]))"
  (is "?lhs \<longleftrightarrow> ?rhs")
proof
  assume ?lhs
  then have z: "zparse (HttpEventSourceSchema E) v = Inr out" by (simp add: parse_Inr_iff)
  then obtain kvs c s d rb ri ru where v: "v = JObj kvs"
    and e1: "zparse (ZOptional ZString) (get v ''connectionId'') = Inr c"
    and e2: "zparse (ZOptional ZString) (get v ''secret'') = Inr s"
    and e3: "zparse (ZOptional (SerializableJsonSchema E)) (get v ''data'') = Inr d"
    and e4: "zparse ZBoolean (get v ''active'') = Inr rb"
    and e5: "zparse ZString (get v ''id'') = Inr ri"
    and e6: "zparse (ZStringCheck (isURL E)) (get v ''url'') = Inr ru"
    and out: "out = JObj
        (kept v (''connectionId'', zparse (ZOptional ZString) (get v ''connectionId''))
         @ kept v (''secret'', zparse (ZOptional ZString) (get v ''secret''))
         @ kept v (''data'', zparse (ZOptional (SerializableJsonSchema E)) (get v ''data''))
         @ kept v (''active'', zparse ZBoolean (get v ''active''))
         @ kept v (''id'', zparse ZString (get v ''id''))
         @ kept v (''url'', zparse (ZStringCheck (isURL E)) (get v ''url'')))"
    unfolding HttpEventSourceSchema_shape zparse_ZObject_iff
    by (auto simp del: get.simps zparse.simps)
  from e1 have g1: "get v ''connectionId'' = c" and t1: "c = JUndefined \<or> (\<exists>x. c = JStr x)"
    unfolding zparse_optional_string_iff by auto
  from e2 have g2: "get v ''secret'' = s" and t2: "s = JUndefined \<or> (\<exists>x. s = JStr x)"
    unfolding zparse_optional_string_iff by auto
  note c3 = e3 [unfolded zparse_optional_iff]
  from e4 obtain b where g4: "get v ''active'' = JBool b" and r4: "rb = JBool b"
    unfolding zparse_ZBoolean_iff by auto
  from e5 obtain i where g5: "get v ''id'' = JStr i" and r5: "ri = JStr i"
    unfolding zparse_ZString_iff by auto
  from e6 obtain u where g6: "get v ''url'' = JStr u" and u: "isURL E u" and r6: "ru = JStr u"
    unfolding zparse_ZStringCheck_iff by auto
  have o: "out = JObj
            ((if c \<noteq> JUndefined \<or> has_key v ''connectionId'' then [(''connectionId'', c)] else [])
             @ (if s \<noteq> JUndefined \<or> has_key v ''secret'' then [(''secret'', s)] else [])
             @ (if d \<noteq> JUndefined \<or> has_key v ''data'' then [(''data'', d)] else [])
             @ [(''active'', JBool b), (''id'', JStr i), (''url'', JStr u)])"
    unfolding out e1 e2 e3 e4 e5 e6 kept_Inr r4 r5 r6 by simp
  show ?rhs
    apply (rule exI [of _ kvs], rule exI [of _ c], rule exI [of _ s], rule exI [of _ d])
    apply (rule exI [of _ b], rule exI [of _ i], rule exI [of _ u])
    apply (intro conjI)
              apply (rule v, rule g1, rule t1, rule g2, rule t2, rule c3, rule g4, rule g5, rule g6,
        rule u, rule o)
    done
next
  assume ?rhs
  then obtain kvs c s d b i u where v: "v = JObj kvs"
    and g1: "get v ''connectionId'' = c" and t1: "c = JUndefined \<or> (\<exists>x. c = JStr x)"
    and g2: "get v ''secret'' = s" and t2: "s = JUndefined \<or> (\<exists>x. s = JStr x)"
    and c3: "(get v ''data'' = JUndefined \<and> d = JUndefined)
            \<or> (get v ''data'' \<noteq> JUndefined
                \<and> zparse (SerializableJsonSchema E) (get v ''data'') = Inr d)"
    and g4: "get v ''active'' = JBool b"
    and g5: "get v ''id'' = JStr i"
    and g6: "get v ''url'' = JStr u" and u: "isURL E u"
    and o: "out = JObj
            ((if c \<noteq> JUndefined \<or> has_key v ''connectionId'' then [(''connectionId'', c)] else [])
             @ (if s \<noteq> JUndefined \<or> has_key v ''secret'' then [(''secret'', s)] else [])
             @ (if d \<noteq> JUndefined \<or> has_key v ''data'' then [(''data'', d)] else [])
             @ [(''active'', JBool b), (''id'', JStr i), (''url'', JStr u)])"
    by (elim exE conjE)
  have e1: "zparse (ZOptional ZString) (get v ''connectionId'') = Inr c"
    unfolding zparse_optional_string_iff using g1 t1 by simp
  have e2: "zparse (ZOptional ZString) (get v ''secret'') = Inr s"
    unfolding zparse_optional_string_iff using g2 t2 by simp
  have e3: "zparse (ZOptional (SerializableJsonSchema E)) (get v ''data'') = Inr d"
    unfolding zparse_optional_iff by (rule c3)
  have e4: "zparse ZBoolean (get v ''active'') = Inr (JBool b)" by (simp add: g4 del: get.simps)
  have e5: "zparse ZString (get v ''id'') = Inr (JStr i)" by (simp add: g5 del: get.simps)
  have e6: "zparse (ZStringCheck (isURL E)) (get v ''url'') = Inr (JStr u)"
    by (simp add: g6 u del: get.simps)
  have "zparse (HttpEventSourceSchema E) v = Inr out"
    unfolding HttpEventSourceSchema_shape zparse_ZObject_iff
  proof (intro conjI)
    show "\<exists>kvs. v = JObj kvs" using v by (rule exI)
  qed (simp_all add: e1 e2 e3 e4 e5 e6 kept_Inr o del: get.simps zparse.simps has_key.simps)
  then show ?lhs by (simp add: parse_Inr_iff)
qed

text \<open>
  Claim C5, as amended. \<^verbatim>\<open>HttpEventSourceSchema\<close> extends the update body, from which
  \<^verbatim>\<open>key\<close> was omitted: a \<^verbatim>\<open>key\<close> in the input changes nothing, and every parsed source
  has no \<^verbatim>\<open>key\<close>. The schema accepts exactly the objects with a string \<^verbatim>\<open>id\<close>, a \<^verbatim>\<open>url\<close> that
  is a URL and a boolean \<^verbatim>\<open>active\<close>, whose \<^verbatim>\<open>secret\<close> and \<^verbatim>\<open>connectionId\<close> are each absent or
  a string and whose \<^verbatim>\<open>data\<close> is absent or accepted by \<^verbatim>\<open>SerializableJsonSchema\<close>; the
  parsed source holds \<^verbatim>\<open>connectionId\<close>, \<^verbatim>\<open>secret\<close> and \<^verbatim>\<open>data\<close> where they were given, then
  \<^verbatim>\<open>active\<close>, \<^verbatim>\<open>id\<close> and \<^verbatim>\<open>url\<close>, and nothing else.
\<close>

theorem HttpEventSource_fields:
  "parse (HttpEventSourceSchema E) (JObj (filter (\<lambda>p. fst p \<noteq> ''key'') kvs'))
     = parse (HttpEventSourceSchema E) (JObj kvs')
   \<and> (parse (HttpEventSourceSchema E) v = Inr out \<longrightarrow>
        get out ''key'' = JUndefined \<and> \<not> has_key out ''key''
        \<and> (\<exists>i. get out ''id'' = JStr i)
        \<and> (\<exists>u. get out ''url'' = JStr u \<and> isURL E u)
        \<and> (\<exists>b. get out ''active'' = JBool b)
        \<and> (get out ''secret'' = JUndefined \<or> (\<exists>s. get out ''secret'' = JStr s))
        \<and> (get out ''connectionId'' = JUndefined \<or> (\<exists>c. get out ''connectionId'' = JStr c)))
   \<and> (parse (HttpEventSourceSchema E) v = Inr out \<longleftrightarrow>
     (\<exists>kvs c s d b i u.
        v = JObj kvs
        \<and> get v ''connectionId'' = c \<and> (c = JUndefined \<or> (\<exists>x. c = JStr x))
        \<and> get v ''secret'' = s \<and> (s = JUndefined \<or> (\<exists>x. s = JStr x))
        \<and> ((get v ''data'' = JUndefined \<and> d = JUndefined)
            \<or> (get v ''data'' \<noteq> JUndefined
                \<and> zparse (SerializableJsonSchema E) (get v ''data'') = Inr d))
        \<and> get v ''active'' = JBool b
        \<and> get v ''id'' = JStr i
        \<and> get v ''url'' = JStr u \<and> isURL E u
        \<and> out = JObj
            ((if c \<noteq> JUndefined \<or> has_key v ''connectionId'' then [(''connectionId'', c)] else [])
             @ (if s \<noteq> JUndefined \<or> has_key v ''secret'' then [(''secret'', s)] else [])
             @ (if d \<noteq> JUndefined \<or> has_key v ''data'' then [(''data'', d)] else [])
             @ [(''active'', JBool b), (''id'', JStr i), (''url'', JStr u)])))"
  by (rule conjI [OF HttpEventSource_ignores_key], rule conjI, rule impI,
      rule HttpEventSource_parsed_fields, assumption, rule HttpEventSource_exact)

theorem HttpEventSource_fields_witness:
  "parse (HttpEventSourceSchema example_env)
     (JObj [(''id'', JStr ''src_1''), (''key'', JStr ''github.push''),
            (''url'', JStr ''https://example.com/hooks/1''), (''active'', JBool True),
            (''secret'', JStr ''s3cr3t''), (''connectionId'', JStr ''conn_1''),
            (''data'', JObj [(''installation'', JNum 7)])])
   = Inr (JObj [(''connectionId'', JStr ''conn_1''), (''secret'', JStr ''s3cr3t''),
                (''data'', JObj [(''installation'', JNum 7)]),
                (''active'', JBool True), (''id'', JStr ''src_1''),
                (''url'', JStr ''https://example.com/hooks/1'')])
   \<and> get (JObj [(''connectionId'', JStr ''conn_1''), (''secret'', JStr ''s3cr3t''),
                (''data'', JObj [(''installation'', JNum 7)]),
                (''active'', JBool True), (''id'', JStr ''src_1''),
                (''url'', JStr ''https://example.com/hooks/1'')]) ''key'' = JUndefined
   \<and> parse (HttpEventSourceSchema example_env)
     (JObj (filter (\<lambda>p. fst p \<noteq> ''key'')
        [(''id'', JStr ''src_1''), (''key'', JStr ''github.push''),
         (''url'', JStr ''https://example.com/hooks/1''), (''active'', JBool True),
         (''secret'', JStr ''s3cr3t''), (''connectionId'', JStr ''conn_1''),
         (''data'', JObj [(''installation'', JNum 7)])]))
   = Inr (JObj [(''connectionId'', JStr ''conn_1''), (''secret'', JStr ''s3cr3t''),
                (''data'', JObj [(''installation'', JNum 7)]),
                (''active'', JBool True), (''id'', JStr ''src_1''),
                (''url'', JStr ''https://example.com/hooks/1'')])"
proof -
  let ?kvs = "[(''id'', JStr ''src_1''), (''key'', JStr ''github.push''),
            (''url'', JStr ''https://example.com/hooks/1''), (''active'', JBool True),
            (''secret'', JStr ''s3cr3t''), (''connectionId'', JStr ''conn_1''),
            (''data'', JObj [(''installation'', JNum 7)])]"
  let ?out = "JObj [(''connectionId'', JStr ''conn_1''), (''secret'', JStr ''s3cr3t''),
                (''data'', JObj [(''installation'', JNum 7)]),
                (''active'', JBool True), (''id'', JStr ''src_1''),
                (''url'', JStr ''https://example.com/hooks/1'')]"
  have p: "parse (HttpEventSourceSchema example_env) (JObj ?kvs) = Inr ?out"
    apply (rule HttpEventSource_fields [THEN conjunct2, THEN conjunct2, THEN iffD2])
    apply (rule exI [of _ ?kvs], rule exI [of _ "JStr ''conn_1''"], rule exI [of _ "JStr ''s3cr3t''"])
    apply (rule exI [of _ "JObj [(''installation'', JNum 7)]"], rule exI [of _ True])
    apply (rule exI [of _ "''src_1''"], rule exI [of _ "''https://example.com/hooks/1''"])
    apply (simp add: example_env_def)
    done
  have k: "get ?out ''key'' = JUndefined"
    by (rule HttpEventSource_fields [THEN conjunct2, THEN conjunct1, THEN mp, OF p, THEN conjunct1])
  have f: "parse (HttpEventSourceSchema example_env) (JObj (filter (\<lambda>p. fst p \<noteq> ''key'') ?kvs))
             = Inr ?out"
    using HttpEventSource_fields [THEN conjunct1, of example_env ?kvs] p by (rule trans)
  show ?thesis by (rule conjI [OF p conjI [OF k f]])
qed

text \<open>
  The claim as stated fails: a source without \<^verbatim>\<open>key\<close> is accepted, and the parsed source
  has none.
\<close>

theorem HttpEventSource_key_counterexample:
  "parse (HttpEventSourceSchema example_env)
     (JObj [(''id'', JStr ''src_1''), (''url'', JStr ''https://example.com/hooks/1''),
            (''active'', JBool True)])
   = Inr (JObj [(''active'', JBool True), (''id'', JStr ''src_1''),
                (''url'', JStr ''https://example.com/hooks/1'')])
   \<and> get (JObj [(''id'', JStr ''src_1''), (''url'', JStr ''https://example.com/hooks/1''),
            (''active'', JBool True)]) ''key'' = JUndefined
   \<and> get (JObj [(''active'', JBool True), (''id'', JStr ''src_1''),
                (''url'', JStr ''https://example.com/hooks/1'')]) ''key'' = JUndefined"
  by (simp add: parse_def HttpEventSourceSchema_shape example_env_def)

subsection \<open>C6: the response of a job run\<close>

text \<open>
  Claim C6, as amended. \<^verbatim>\<open>ExecuteJobResponseSchema\<close> accepts exactly the objects with a
  string \<^verbatim>\<open>executionId\<close> and a boolean \<^verbatim>\<open>completed\<close> whose \<^verbatim>\<open>output\<close>, when present,
  is accepted by \<^verbatim>\<open>DeserializedJsonSchema\<close> and whose \<^verbatim>\<open>task\<close>, when present, is accepted
  by \<^verbatim>\<open>TaskSchema\<close>: four independent conditions, none relating \<^verbatim>\<open>completed\<close> to the
  presence of \<^verbatim>\<open>output\<close> or \<^verbatim>\<open>task\<close>.
\<close>

theorem ExecuteJobResponse_accepts:
  "(\<exists>out. parse (ExecuteJobResponseSchema E) v = Inr out) \<longleftrightarrow>
     (\<exists>kvs. v = JObj kvs)
     \<and> (\<exists>x. get v ''executionId'' = JStr x)
     \<and> (\<exists>b. get v ''completed'' = JBool b)
     \<and> (get v ''output'' = JUndefined
          \<or> (\<exists>r. zparse (DeserializedJsonSchema E) (get v ''output'') = Inr r))
     \<and> (get v ''task'' = JUndefined \<or> (\<exists>r. zparse (TaskSchema E) (get v ''task'') = Inr r))"
proof -
  have "(\<exists>out. parse (ExecuteJobResponseSchema E) v = Inr out)
      \<longleftrightarrow> (\<exists>kvs. v = JObj kvs)
        \<and> (\<exists>x. zparse ZString (get v ''executionId'') = Inr x)
        \<and> (\<exists>x. zparse ZBoolean (get v ''completed'') = Inr x)
        \<and> (\<exists>x. zparse (ZOptional (DeserializedJsonSchema E)) (get v ''output'') = Inr x)
        \<and> (\<exists>x. zparse (ZOptional (TaskSchema E)) (get v ''task'') = Inr x)"
    unfolding parse_Inr_iff ExecuteJobResponseSchema_def zparse_ZObject_iff
    by (simp del: get.simps zparse.simps)
  then show ?thesis
    unfolding zparse_ZOptional_iff zparse_ZString_iff zparse_ZBoolean_iff by simp
qed

theorem ExecuteJobResponse_accepts_witness:
  "(\<exists>out. parse (ExecuteJobResponseSchema example_env)
       (JObj [(''executionId'', JStr ''x1''), (''completed'', JBool True),
              (''output'', JObj [(''sent'', JBool True)])]) = Inr out)"
proof -
  let ?v = "JObj [(''executionId'', JStr ''x1''), (''completed'', JBool True),
              (''output'', JObj [(''sent'', JBool True)])]"
  have "zparse (DeserializedJsonSchema example_env) (get ?v ''output'') = Inr (get ?v ''output'')"
    by (simp add: example_env_def)
  then have "\<exists>r. zparse (DeserializedJsonSchema example_env) (get ?v ''output'') = Inr r" ..
  then show ?thesis unfolding ExecuteJobResponse_accepts [of example_env ?v] by auto
qed

text \<open>
  The claim as stated fails: a report that is not completed and carries neither task nor
  output is accepted, and so is a completed report that carries a task and no output.
\<close>

theorem ExecuteJobResponse_counterexample:
  "parse (ExecuteJobResponseSchema example_env)
     (JObj [(''executionId'', JStr ''x1''), (''completed'', JBool False)])
   = Inr (JObj [(''executionId'', JStr ''x1''), (''completed'', JBool False)])
   \<and> parse (ExecuteJobResponseSchema example_env)
     (JObj [(''executionId'', JStr ''x1''), (''completed'', JBool True),
            (''task'', JObj [(''id'', JStr ''t1''), (''name'', JStr ''send-welcome-email''),
                             (''idempotencyKey'', JStr ''send-welcome-email''),
                             (''status'', JStr ''RUNNING''), (''noop'', JBool False)])])
   = Inr (JObj [(''executionId'', JStr ''x1''), (''completed'', JBool True),
            (''task'', JObj [(''id'', JStr ''t1''), (''name'', JStr ''send-welcome-email''),
                             (''idempotencyKey'', JStr ''send-welcome-email''),
                             (''status'', JStr ''RUNNING''), (''noop'', JBool False)])])
   \<and> \<not> completion_shape (JObj [(''executionId'', JStr ''x1''), (''completed'', JBool False)])
   \<and> \<not> completion_shape
     (JObj [(''executionId'', JStr ''x1''), (''completed'', JBool True),
            (''task'', JObj [(''id'', JStr ''t1''), (''name'', JStr ''send-welcome-email''),
                             (''idempotencyKey'', JStr ''send-welcome-email''),
                             (''status'', JStr ''RUNNING''), (''noop'', JBool False)])])"
  by (simp add: parse_def ExecuteJobResponseSchema_def example_env_def completion_shape_def)

subsection \<open>C7: the tagged result of creating an execution\<close>

lemma zparse_error_variant:
  "zparse CreateExecutionResponseErrorSchema v = Inr out \<longleftrightarrow>
     (\<exists>kvs e. v = JObj kvs \<and> get v ''ok'' = JBool False \<and> get v ''error'' = JStr e \<and>
        out = JObj [(''ok'', JBool False), (''error'', JStr e)])"
  unfolding CreateExecutionResponseErrorSchema_def zparse_ZObject_iff
  apply (simp add: zparse_ZString_iff zparse_ZLiteral_iff kept_def del: get.simps zparse.simps)
  apply (auto simp del: get.simps)
  done

lemma zparse_ok_variant:
  "zparse CreateExecutionResponseOkSchema v = Inr out \<longleftrightarrow>
     (\<exists>kvs dkvs i. v = JObj kvs \<and> get v ''ok'' = JBool True \<and> get v ''data'' = JObj dkvs \<and>
        get (JObj dkvs) ''id'' = JStr i \<and>
        out = JObj [(''ok'', JBool True), (''data'', JObj [(''id'', JStr i)])])"
  unfolding CreateExecutionResponseOkSchema_def zparse_ZObject_iff
  apply (simp add: zparse_ZObject_iff zparse_ZString_iff zparse_ZLiteral_iff kept_def del: get.simps zparse.simps)
  apply (auto simp del: get.simps)
  done

text \<open>
  Claim C7. \<^verbatim>\<open>CreateExecutionResponseBodySchema\<close> accepts exactly two variants,
  discriminated on \<^verbatim>\<open>ok\<close>: an object with \<^verbatim>\<open>ok: true\<close> whose \<^verbatim>\<open>data\<close> is an object with a
  string \<^verbatim>\<open>id\<close>, parsed to \<^verbatim>\<open>{ok: true, data: {id}}\<close>, and an object with \<^verbatim>\<open>ok: false\<close> and
  a string \<^verbatim>\<open>error\<close>, parsed to \<^verbatim>\<open>{ok: false, error}\<close>. Everything else is rejected, in
  particular \<^verbatim>\<open>ok: true\<close> without \<^verbatim>\<open>data\<close> and \<^verbatim>\<open>ok: false\<close> without \<^verbatim>\<open>error\<close>.
\<close>

theorem CreateExecutionResponseBody_tagged:
  "parse CreateExecutionResponseBodySchema v = Inr out \<longleftrightarrow>
     (\<exists>kvs. v = JObj kvs) \<and>
     ((\<exists>dkvs i. get v ''ok'' = JBool True \<and> get v ''data'' = JObj dkvs \<and>
          get (JObj dkvs) ''id'' = JStr i \<and>
          out = JObj [(''ok'', JBool True), (''data'', JObj [(''id'', JStr i)])])
      \<or> (\<exists>e. get v ''ok'' = JBool False \<and> get v ''error'' = JStr e \<and>
          out = JObj [(''ok'', JBool False), (''error'', JStr e)]))"
proof (cases v)
  case (JObj kvs)
  have d1: "discriminatorOf ''ok'' CreateExecutionResponseOkSchema = Some (JBool True)"
    by (simp add: CreateExecutionResponseOkSchema_def)
  have d2: "discriminatorOf ''ok'' CreateExecutionResponseErrorSchema = Some (JBool False)"
    by (simp add: CreateExecutionResponseErrorSchema_def)
  have "zparse CreateExecutionResponseBodySchema v =
          (if get v ''ok'' = JBool True then zparse CreateExecutionResponseOkSchema v
           else if get v ''ok'' = JBool False then zparse CreateExecutionResponseErrorSchema v
           else Inl INVALID)"
    unfolding CreateExecutionResponseBodySchema_def using JObj
    by (auto simp: d1 d2 simp del: get.simps)
  then show ?thesis
    using JObj
    by (auto simp: parse_Inr_iff zparse_ok_variant zparse_error_variant simp del: get.simps)
qed (simp_all add: parse_Inr_iff CreateExecutionResponseBodySchema_def)

theorem CreateExecutionResponseBody_tagged_witness:
  "parse CreateExecutionResponseBodySchema
     (JObj [(''ok'', JBool True), (''data'', JObj [(''id'', JStr ''x1''), (''extra'', JNull)])])
   = Inr (JObj [(''ok'', JBool True), (''data'', JObj [(''id'', JStr ''x1'')])])
   \<and> parse CreateExecutionResponseBodySchema (JObj [(''ok'', JBool False), (''error'', JStr ''no such job'')])
   = Inr (JObj [(''ok'', JBool False), (''error'', JStr ''no such job'')])
   \<and> parse CreateExecutionResponseBodySchema (JObj [(''ok'', JBool True), (''error'', JStr ''no such job'')])
   = Inl ZodError
   \<and> parse CreateExecutionResponseBodySchema (JObj [(''ok'', JBool False), (''data'', JObj [(''id'', JStr ''x1'')])])
   = Inl ZodError"
proof -
  let ?ok = "JObj [(''ok'', JBool True), (''data'', JObj [(''id'', JStr ''x1''), (''extra'', JNull)])]"
  let ?err = "JObj [(''ok'', JBool False), (''error'', JStr ''no such job'')]"
  have 1: "parse CreateExecutionResponseBodySchema ?ok
             = Inr (JObj [(''ok'', JBool True), (''data'', JObj [(''id'', JStr ''x1'')])])"
    using CreateExecutionResponseBody_tagged
      [of ?ok "JObj [(''ok'', JBool True), (''data'', JObj [(''id'', JStr ''x1'')])]"]
    by simp
  have 2: "parse CreateExecutionResponseBodySchema ?err = Inr ?err"
    using CreateExecutionResponseBody_tagged [of ?err ?err] by simp
  have 3: "parse CreateExecutionResponseBodySchema (JObj [(''ok'', JBool True), (''error'', JStr ''no such job'')])
             = Inl ZodError"
    by (simp add: parse_def CreateExecutionResponseBodySchema_def CreateExecutionResponseOkSchema_def
        CreateExecutionResponseErrorSchema_def)
  have 4: "parse CreateExecutionResponseBodySchema (JObj [(''ok'', JBool False), (''data'', JObj [(''id'', JStr ''x1'')])])
             = Inl ZodError"
    by (simp add: parse_def CreateExecutionResponseBodySchema_def CreateExecutionResponseOkSchema_def
        CreateExecutionResponseErrorSchema_def)
  from 1 2 3 4 show ?thesis by blast
qed

subsection \<open>C8: the default id of a raw event\<close>

lemma length_encodeTime: "length (encodeTime now len) = len"
  by (induction len arbitrary: now) auto

lemma length_encodeRandom: "length (encodeRandom len draw) = len"
  by (induction len arbitrary: draw) auto

lemma length_ulid: "length (ulid now draw) = 26"
  by (simp add: ulid_def length_encodeTime length_encodeRandom)

lemma take_ulid: "take 10 (ulid now draw) = encodeTime now 10"
  by (simp add: ulid_def length_encodeTime)

lemma ENCODING_sorted: "sorted_wrt (<) ENCODING"
  by (simp add: ENCODING_def)

lemma ENCODING_mono: "i < j \<Longrightarrow> j < 32 \<Longrightarrow> ENCODING ! i < ENCODING ! j"
proof -
  assume "i < j" "j < 32"
  moreover have "length ENCODING = 32" by (simp add: ENCODING_def)
  ultimately show ?thesis using sorted_wrt_nth_less [OF ENCODING_sorted, of i j] by simp
qed

lemma encodeTime_mono:
  "a < b \<Longrightarrow> b < 32 ^ len \<Longrightarrow> encodeTime a len < encodeTime b len"
proof (induction len arbitrary: a b)
  case 0
  then show ?case by simp
next
  case (Suc len)
  have le: "a div 32 \<le> b div 32" using Suc.prems(1) by (simp add: div_le_mono)
  have bd: "b div 32 < 32 ^ len" using Suc.prems(2) by (simp add: less_mult_imp_div_less mult.commute)
  show ?case
  proof (cases "a div 32 < b div 32")
    case True
    from Suc.IH[OF True bd] have "(encodeTime (a div 32) len, encodeTime (b div 32) len)
        \<in> lexord {(u, v). u < v}" by (simp add: list_less_def)
    then have "(encodeTime (a div 32) len @ [ENCODING ! (a mod 32)],
                encodeTime (b div 32) len @ [ENCODING ! (b mod 32)]) \<in> lexord {(u, v). u < v}"
      by (rule lexord_sufI) (simp add: length_encodeTime)
    then show ?thesis by (simp add: list_less_def)
  next
    case False
    with le have eq: "a div 32 = b div 32" by simp
    have "a mod 32 < b mod 32"
    proof -
      have "a = 32 * (a div 32) + a mod 32" "b = 32 * (b div 32) + b mod 32" by simp_all
      with eq Suc.prems(1) show ?thesis by linarith
    qed
    then have "ENCODING ! (a mod 32) < ENCODING ! (b mod 32)" by (rule ENCODING_mono) simp
    then have "(encodeTime (b div 32) len @ ENCODING ! (a mod 32) # [],
                encodeTime (b div 32) len @ ENCODING ! (b mod 32) # []) \<in> lexord {(u, v). u < v}"
      by (intro lexord_append_left_rightI) simp
    then show ?thesis by (simp add: list_less_def eq)
  qed
qed

lemma ulid_mono:
  assumes "t1 < t2" "t2 < 2 ^ 48"
  shows "ulid t1 d1 < ulid t2 d2"
proof -
  have "(2::nat) ^ 48 \<le> 32 ^ 10" by simp
  with assms(2) have "t2 < 32 ^ 10" by linarith
  from encodeTime_mono[OF assms(1) this]
  have "(encodeTime t1 10, encodeTime t2 10) \<in> lexord {(u, v). u < v}" by (simp add: list_less_def)
  then have "(encodeTime t1 10 @ encodeRandom 16 d1, encodeTime t2 10 @ encodeRandom 16 d2)
      \<in> lexord {(u, v). u < v}"
    by (rule lexord_sufI) (simp add: length_encodeTime)
  then show ?thesis by (simp add: list_less_def ulid_def)
qed

lemma RawEvent_id:
  assumes "parse (RawEventSchema E) v = Inr out" "get v ''id'' = JUndefined"
  shows "get out ''id'' = JStr (ulid (clock E) (prng E))"
proof -
  from assms(1) have z: "zparse (ZObject
       [(''id'', ZDefault ZString (JStr (ulid (clock E) (prng E)))),
        (''name'', ZString),
        (''source'', ZDefault ZString (JStr ''trigger.dev'')),
        (''payload'', DeserializedJsonSchema E),
        (''context'', ZOptional (DeserializedJsonSchema E)),
        (''timestamp'', ZOptional (ZStringCheck (isDatetime E)))]) v = Inr out"
    by (simp add: parse_Inr_iff RawEventSchema_def)
  have "zparse (ZDefault ZString (JStr (ulid (clock E) (prng E)))) (get v ''id'') = Inr (get out ''id'')"
    by (rule zparse_object_field[OF z]) simp_all
  with assms(2) show ?thesis by simp
qed

text \<open>
  Claim C8. When \<^verbatim>\<open>RawEventSchema\<close> accepts an input without \<^verbatim>\<open>id\<close>, the parsed \<^verbatim>\<open>id\<close> is
  the identifier generated at the parse: 26 characters, the first 10 of which encode the
  clock. Of two events parsed without \<^verbatim>\<open>id\<close>, the one parsed at the earlier clock
  (before the year 10889, where the 48 bits of the time run out) has the smaller \<^verbatim>\<open>id\<close>
  in the lexicographic order of strings.
\<close>

theorem RawEvent_default_id:
  "(parse (RawEventSchema E) v = Inr out \<and> get v ''id'' = JUndefined \<longrightarrow>
      get out ''id'' = JStr (ulid (clock E) (prng E))
      \<and> length (ulid (clock E) (prng E)) = 26
      \<and> take 10 (ulid (clock E) (prng E)) = encodeTime (clock E) 10)
   \<and> (parse (RawEventSchema E) v = Inr out \<and> get v ''id'' = JUndefined
      \<and> parse (RawEventSchema E') v' = Inr out' \<and> get v' ''id'' = JUndefined
      \<and> clock E < clock E' \<and> clock E' < 2 ^ 48 \<longrightarrow>
      (\<exists>i i'. get out ''id'' = JStr i \<and> get out' ''id'' = JStr i' \<and> i < i'))"
  using RawEvent_id length_ulid take_ulid ulid_mono by blast

lemma encodeTime_numeral:
  "encodeTime now (numeral k) = encodeTime (now div 32) (pred_numeral k) @ [ENCODING ! (now mod 32)]"
  unfolding numeral_eq_Suc [of k] encodeTime.simps ..

lemma encodeRandom_numeral:
  "encodeRandom (numeral k) draw =
     encodeRandom (pred_numeral k) (\<lambda>i. draw (Suc i)) @ [ENCODING ! (min (draw 0) 31)]"
  unfolding numeral_eq_Suc [of k] encodeRandom.simps ..

lemma ulid_example1: "ulid 1672531200000 (\<lambda>i. i) = ''01GNNA1J00FEDCBA9876543210''"
  by (simp add: ulid_def encodeTime_numeral encodeRandom_numeral ENCODING_def)

lemma ulid_example2: "ulid 1672531200001 (\<lambda>i. i) = ''01GNNA1J01FEDCBA9876543210''"
  by (simp add: ulid_def encodeTime_numeral encodeRandom_numeral ENCODING_def)

theorem RawEvent_default_id_witness:
  "parse (RawEventSchema example_env)
     (JObj [(''name'', JStr ''user.created''), (''payload'', JObj [(''id'', JNum 42)])])
   = Inr (JObj [(''id'', JStr ''01GNNA1J00FEDCBA9876543210''), (''name'', JStr ''user.created''),
                (''source'', JStr ''trigger.dev''), (''payload'', JObj [(''id'', JNum 42)])])
   \<and> parse (RawEventSchema (example_env\<lparr>clock := 1672531200001\<rparr>))
     (JObj [(''name'', JStr ''user.created''), (''payload'', JObj [(''id'', JNum 42)])])
   = Inr (JObj [(''id'', JStr ''01GNNA1J01FEDCBA9876543210''), (''name'', JStr ''user.created''),
                (''source'', JStr ''trigger.dev''), (''payload'', JObj [(''id'', JNum 42)])])
   \<and> length ''01GNNA1J00FEDCBA9876543210'' = 26
   \<and> take 10 ''01GNNA1J00FEDCBA9876543210'' = encodeTime 1672531200000 10
   \<and> (\<exists>i i'. JStr ''01GNNA1J00FEDCBA9876543210'' = JStr i \<and>
         JStr ''01GNNA1J01FEDCBA9876543210'' = JStr i' \<and> i < i')"
proof -
  let ?v = "JObj [(''name'', JStr ''user.created''), (''payload'', JObj [(''id'', JNum 42)])]"
  let ?out = "JObj [(''id'', JStr ''01GNNA1J00FEDCBA9876543210''), (''name'', JStr ''user.created''),
                (''source'', JStr ''trigger.dev''), (''payload'', JObj [(''id'', JNum 42)])]"
  let ?out' = "JObj [(''id'', JStr ''01GNNA1J01FEDCBA9876543210''), (''name'', JStr ''user.created''),
                (''source'', JStr ''trigger.dev''), (''payload'', JObj [(''id'', JNum 42)])]"
  let ?E' = "example_env\<lparr>clock := 1672531200001\<rparr>"
  have c: "clock example_env = 1672531200000" "prng example_env = (\<lambda>i. i)"
    "clock ?E' = 1672531200001" "prng ?E' = (\<lambda>i. i)"
    by (simp_all add: example_env_def)
  have d: "zparse (DeserializedJsonSchema example_env) (JObj [(''id'', JNum 42)])
             = Inr (JObj [(''id'', JNum 42)])"
    "zparse (DeserializedJsonSchema ?E') (JObj [(''id'', JNum 42)]) = Inr (JObj [(''id'', JNum 42)])"
    by (simp_all add: example_env_def)
  have p: "parse (RawEventSchema example_env) ?v = Inr ?out"
    by (simp add: parse_def RawEventSchema_def c d ulid_example1 del: zparse.simps(14))
  have p': "parse (RawEventSchema ?E') ?v = Inr ?out'"
    by (simp add: parse_def RawEventSchema_def c d ulid_example2 del: zparse.simps(14))
  have u: "get ?v ''id'' = JUndefined" by simp
  have lt: "clock example_env < clock ?E' \<and> clock ?E' < 2 ^ 48" by (simp add: c)
  note T = RawEvent_default_id [of example_env ?v ?out ?E' ?v ?out']
  have single: "length (ulid (clock example_env) (prng example_env)) = 26
      \<and> take 10 (ulid (clock example_env) (prng example_env)) = encodeTime (clock example_env) 10"
    using T [THEN conjunct1, THEN mp, OF conjI [OF p u]] by (rule conjunct2)
  have pair: "\<exists>i i'. get ?out ''id'' = JStr i \<and> get ?out' ''id'' = JStr i' \<and> i < i'"
    using T [THEN conjunct2, THEN mp, OF conjI [OF p conjI [OF u conjI [OF p' conjI [OF u lt]]]]] .
  from single have s1: "length ''01GNNA1J00FEDCBA9876543210'' = 26"
    and s2: "take 10 ''01GNNA1J00FEDCBA9876543210'' = encodeTime 1672531200000 10"
    unfolding c ulid_example1 by (rule conjunct1, rule conjunct2)
  from pair have s3: "\<exists>i i'. JStr ''01GNNA1J00FEDCBA9876543210'' = JStr i \<and>
         JStr ''01GNNA1J01FEDCBA9876543210'' = JStr i' \<and> i < i'"
    by simp
  show ?thesis by (rule conjI [OF p conjI [OF p' conjI [OF s1 conjI [OF s2 s3]]]])
qed

subsection \<open>C9: completing a task\<close>







subsection \<open>C10: the default of noop\<close>

lemma RunTaskBodyInputSchema_shape:
  "RunTaskBodyInputSchema E =
     ZObject
       [(''name'', ZString),
        (''icon'', ZOptional ZString),
        (''displayKey'', ZOptional ZString),
        (''noop'', ZDefault ZBoolean (JBool False)),
        (''delayUntil'', ZOptional (ZCoerceDate (new_Date E))),
        (''description'', ZOptional ZString),
        (''elements'', ZOptional (ZArray (DisplayElementSchema E))),
        (''params'', ZOptional (SerializableJsonSchema E)),
        (''idempotencyKey'', ZString)]"
  by (simp add: RunTaskBodyInputSchema_def IOTaskSchema_def)

lemma zparse_noop:
  assumes "zparse (ZDefault ZBoolean (JBool False)) x = Inr r"
  shows "(\<exists>b. r = JBool b) \<and> (x = JUndefined \<longrightarrow> r = JBool False)"
  using assms by (cases x) (auto split: if_splits)

text \<open>
  Claim C10. A value parsed by \<^verbatim>\<open>IOTaskSchema\<close> or by \<^verbatim>\<open>RunTaskBodyInputSchema\<close> has a
  boolean \<^verbatim>\<open>noop\<close>, and it is \<^verbatim>\<open>false\<close> whenever the input has no \<^verbatim>\<open>noop\<close>.
\<close>

theorem noop_default:
  "(parse (IOTaskSchema E) v = Inr out \<longrightarrow>
      (\<exists>b. get out ''noop'' = JBool b) \<and> (get v ''noop'' = JUndefined \<longrightarrow> get out ''noop'' = JBool False))
   \<and> (parse (RunTaskBodyInputSchema E) v' = Inr out' \<longrightarrow>
      (\<exists>b. get out' ''noop'' = JBool b) \<and> (get v' ''noop'' = JUndefined \<longrightarrow> get out' ''noop'' = JBool False))"
proof (intro conjI impI)
  assume "parse (IOTaskSchema E) v = Inr out"
  then have z: "zparse (ZObject
       [(''name'', ZString),
        (''icon'', ZOptional ZString),
        (''displayKey'', ZOptional ZString),
        (''noop'', ZDefault ZBoolean (JBool False)),
        (''delayUntil'', ZOptional (ZCoerceDate (new_Date E))),
        (''description'', ZOptional ZString),
        (''elements'', ZOptional (ZArray (DisplayElementSchema E))),
        (''params'', ZOptional (SerializableJsonSchema E))]) v = Inr out"
    by (simp add: parse_Inr_iff IOTaskSchema_def)
  have n: "zparse (ZDefault ZBoolean (JBool False)) (get v ''noop'') = Inr (get out ''noop'')"
    by (rule zparse_object_field[OF z]) simp_all
  from zparse_noop[OF n] show "\<exists>b. get out ''noop'' = JBool b" by blast
  assume "get v ''noop'' = JUndefined"
  with zparse_noop[OF n] show "get out ''noop'' = JBool False" by blast
next
  assume "parse (RunTaskBodyInputSchema E) v' = Inr out'"
  then have z: "zparse (ZObject
       [(''name'', ZString),
        (''icon'', ZOptional ZString),
        (''displayKey'', ZOptional ZString),
        (''noop'', ZDefault ZBoolean (JBool False)),
        (''delayUntil'', ZOptional (ZCoerceDate (new_Date E))),
        (''description'', ZOptional ZString),
        (''elements'', ZOptional (ZArray (DisplayElementSchema E))),
        (''params'', ZOptional (SerializableJsonSchema E)),
        (''idempotencyKey'', ZString)]) v' = Inr out'"
    by (simp add: parse_Inr_iff RunTaskBodyInputSchema_shape)
  have n: "zparse (ZDefault ZBoolean (JBool False)) (get v' ''noop'') = Inr (get out' ''noop'')"
    by (rule zparse_object_field[OF z]) simp_all
  from zparse_noop[OF n] show "\<exists>b. get out' ''noop'' = JBool b" by blast
  assume "get v' ''noop'' = JUndefined"
  with zparse_noop[OF n] show "get out' ''noop'' = JBool False" by blast
qed

theorem noop_default_witness:
  "parse (IOTaskSchema example_env) (JObj [(''name'', JStr ''send-welcome-email'')])
     = Inr (JObj [(''name'', JStr ''send-welcome-email''), (''noop'', JBool False)])
   \<and> parse (RunTaskBodyInputSchema example_env)
       (JObj [(''name'', JStr ''send-welcome-email''), (''idempotencyKey'', JStr ''k1''),
              (''params'', JObj [(''to'', JNum 42)])])
     = Inr (JObj [(''name'', JStr ''send-welcome-email''), (''noop'', JBool False),
              (''params'', JObj [(''to'', JNum 42)]), (''idempotencyKey'', JStr ''k1'')])
   \<and> get (JObj [(''name'', JStr ''send-welcome-email''), (''noop'', JBool False)]) ''noop'' = JBool False
   \<and> get (JObj [(''name'', JStr ''send-welcome-email''), (''noop'', JBool False),
              (''params'', JObj [(''to'', JNum 42)]), (''idempotencyKey'', JStr ''k1'')]) ''noop''
       = JBool False"
proof -
  let ?v = "JObj [(''name'', JStr ''send-welcome-email'')]"
  let ?out = "JObj [(''name'', JStr ''send-welcome-email''), (''noop'', JBool False)]"
  let ?v' = "JObj [(''name'', JStr ''send-welcome-email''), (''idempotencyKey'', JStr ''k1''),
              (''params'', JObj [(''to'', JNum 42)])]"
  let ?out' = "JObj [(''name'', JStr ''send-welcome-email''), (''noop'', JBool False),
              (''params'', JObj [(''to'', JNum 42)]), (''idempotencyKey'', JStr ''k1'')]"
  have p: "parse (IOTaskSchema example_env) ?v = Inr ?out"
    by (simp add: parse_def IOTaskSchema_def example_env_def)
  have p': "parse (RunTaskBodyInputSchema example_env) ?v' = Inr ?out'"
    by (simp add: parse_def RunTaskBodyInputSchema_shape example_env_def)
  have u: "get ?v ''noop'' = JUndefined" and u': "get ?v' ''noop'' = JUndefined" by simp_all
  from noop_default [of example_env ?v ?out ?v' ?out'] p p' u u'
  have "get ?out ''noop'' = JBool False \<and> get ?out' ''noop'' = JBool False"
    by (simp only:)
  with p p' show ?thesis by (simp only:)
qed

end
